theory Spec2Isabelle
  imports Main "HOL-Library.Word" "HOL-Library.Sublist" "HOL-Library.Countable"
begin

chapter \<open>tune-in-claude: a shallow embedding of the wrapper and its playback helpers\<close>

text \<open>
  The development follows the TypeScript sources: \<^verbatim>\<open>src/spotify-native.ts\<close> (native
  playback commands), \<^verbatim>\<open>src/claude-wrapper.ts\<close> (hook injection, the keystroke
  engine, cleanup) and \<^verbatim>\<open>src/spotify.ts\<close> with \<^verbatim>\<open>src/config.ts\<close> (the Web API
  token). All definitions come first, the theorems follow.
\<close>

section \<open>Definitions\<close>

subsection \<open>JavaScript strings and the functions of String.prototype the code calls\<close>

text \<open>
  A JavaScript string is a sequence of UTF-16 code units; \<^verbatim>\<open>indexOf\<close>,
  \<^verbatim>\<open>slice\<close> and \<^verbatim>\<open>trim\<close> count code units. The separator of
  \<^verbatim>\<open>getCurrentTrack\<close> is space, EM DASH (U+2014), space: three code units.
\<close>

type_synonym utf16 = "16 word"
type_synonym jsstring = "utf16 list"

text \<open>\<^verbatim>\<open>s.indexOf(pat)\<close>: the first index at which \<open>pat\<close> occurs, or \<open>-1\<close>.\<close>

fun indexOfFrom :: "'a list \<Rightarrow> 'a list \<Rightarrow> nat \<Rightarrow> int" where
  "indexOfFrom [] pat i = (if pat = [] then int i else - 1)"
| "indexOfFrom (x # xs) pat i =
     (if prefix pat (x # xs) then int i else indexOfFrom xs pat (Suc i))"

definition indexOf :: "'a list \<Rightarrow> 'a list \<Rightarrow> int" where
  "indexOf s pat = indexOfFrom s pat 0"

text \<open>
  \<^verbatim>\<open>s.slice(b, e)\<close>: a negative index counts from the end, every index is clamped to
  \<open>0..length s\<close>; \<^verbatim>\<open>s.slice(b)\<close> runs to the end of the string.
\<close>

definition relIndex :: "nat \<Rightarrow> int \<Rightarrow> nat" where
  "relIndex n i = (if i < 0 then nat (max 0 (int n + i)) else min n (nat i))"

definition slice :: "'a list \<Rightarrow> int \<Rightarrow> int \<Rightarrow> 'a list" where
  "slice s b e = take (relIndex (length s) e - relIndex (length s) b) (drop (relIndex (length s) b) s)"

definition sliceFrom :: "'a list \<Rightarrow> int \<Rightarrow> 'a list" where
  "sliceFrom s b = drop (relIndex (length s) b) s"

text \<open>
  \<^verbatim>\<open>s.trim()\<close> removes the WhiteSpace and LineTerminator code units of ECMAScript
  from both ends.
\<close>

definition isWhiteSpace :: "utf16 \<Rightarrow> bool" where
  "isWhiteSpace c \<longleftrightarrow>
     c \<in> {0x09, 0x0A, 0x0B, 0x0C, 0x0D, 0x20, 0xA0, 0x1680, 0x2028, 0x2029, 0x202F, 0x205F,
          0x3000, 0xFEFF}
     \<or> (0x2000 \<le> c \<and> c \<le> 0x200A)"

definition trim :: "jsstring \<Rightarrow> jsstring" where
  "trim s = rev (dropWhile isWhiteSpace (rev (dropWhile isWhiteSpace s)))"

subsection \<open>spotify-native.ts: getCurrentTrack\<close>

text \<open>
  \<^verbatim>\<open>process.platform\<close>: the code distinguishes \<^verbatim>\<open>'darwin'\<close>, \<^verbatim>\<open>'win32'\<close> and
  everything else (which it treats as Linux).
\<close>

datatype platform = Darwin | Win32 | OtherPlatform

record track =
  name :: jsstring
  artist :: jsstring

definition TRACK_SEPARATOR :: jsstring where
  "TRACK_SEPARATOR = [0x20, 0x2014, 0x20]"

text \<open>
  \<^verbatim>\<open>getCurrentTrack()\<close>. The second argument is what \<^verbatim>\<open>execAsync\<close> of the
  \<^verbatim>\<open>osascript\<close> command gives when it is run: \<open>None\<close> when the promise rejects (the
  \<^verbatim>\<open>catch\<close> swallows it), \<open>Some stdout\<close> otherwise. The command is run on
  \<^verbatim>\<open>darwin\<close> only. The result \<open>None\<close> is JavaScript's \<^verbatim>\<open>null\<close>; the function has
  no path that throws, so its result type has no error.
\<close>

definition getCurrentTrack :: "platform \<Rightarrow> jsstring option \<Rightarrow> track option" where
  "getCurrentTrack p osascript =
     (if p = Darwin then
        (case osascript of
           None \<Rightarrow> None
         | Some stdout \<Rightarrow>
             (let trimmed = trim stdout;
                  sepIdx = indexOf trimmed TRACK_SEPARATOR
              in if sepIdx \<noteq> - 1
                 then Some \<lparr>name = slice trimmed 0 sepIdx, artist = sliceFrom trimmed (sepIdx + 3)\<rparr>
                 else None))
      else None)"

subsection \<open>Characters and decimal numerals\<close>

definition DQ :: char where "DQ = CHR 0x22"  \<comment> \<open>the double quote\<close>
definition SQ :: char where "SQ = CHR 0x27"  \<comment> \<open>the single quote\<close>
definition BS :: char where "BS = CHR 0x5C"  \<comment> \<open>the backslash\<close>
definition LF :: char where "LF = CHR 0x0A"  \<comment> \<open>the line feed\<close>

text \<open>\<^verbatim>\<open>String(n)\<close> for a natural number: its decimal digits.\<close>

fun decimal :: "nat \<Rightarrow> string" where
  "decimal n =
     (if n < 10 then [''0123456789'' ! n]
      else decimal (n div 10) @ [''0123456789'' ! (n mod 10)])"

declare decimal.simps [simp del]

definition isDigit :: "char \<Rightarrow> bool" where
  "isDigit c \<longleftrightarrow> (48 :: nat) \<le> of_char c \<and> of_char c \<le> (57 :: nat)"

definition digitVal :: "char \<Rightarrow> nat" where
  "digitVal c = of_char c - 48"

subsection \<open>JSON documents and the runtime library\<close>

text \<open>
  The settings file is read with \<^verbatim>\<open>fs.readFileSync(path, 'utf-8')\<close> and
  \<^verbatim>\<open>JSON.parse\<close>, and written with \<^verbatim>\<open>JSON.stringify(obj, null, 2)\<close> and
  \<^verbatim>\<open>fs.writeFileSync\<close>. The value \<^verbatim>\<open>JSON.parse\<close> returns is a document: null, a
  boolean, a Number, a string, an array, or an object, given as the list of its properties
  in the order \<^verbatim>\<open>JSON.stringify\<close> enumerates them. A Number is a rational (every
  finite double is one), negative zero, or an infinity (\<^verbatim>\<open>JSON.parse('1e999')\<close>); the
  wrapper never computes with the numbers of a document.
\<close>

datatype number = Num rat | NegZero | PosInfinity | NegInfinity

datatype json =
    JNull
  | JBool bool
  | JNum number
  | JStr jsstring
  | JArr "json list"
  | JObj "(jsstring \<times> json) list"

text \<open>
  A string of the source as a JavaScript string: one code unit for each character
  (the literals of the source are ASCII).
\<close>

definition js :: "string \<Rightarrow> jsstring" where
  "js s = map (\<lambda>c. word_of_int (of_char c)) s"

text \<open>
  Setting a property of an object, \<^verbatim>\<open>obj[k] = v\<close>: an existing property keeps its
  place; a new one goes last, except that array-index keys (canonical decimal numbers below
  \<open>2^32 - 1\<close>) are kept in ascending order before all other keys.
\<close>

fun indexValue :: "int \<Rightarrow> jsstring \<Rightarrow> int" where
  "indexValue acc [] = acc"
| "indexValue acc (u # us) = indexValue (10 * acc + (uint u - 48)) us"

definition isArrayIndex :: "jsstring \<Rightarrow> bool" where
  "isArrayIndex k \<longleftrightarrow>
     k \<noteq> [] \<and> list_all (\<lambda>u. 48 \<le> uint u \<and> uint u \<le> 57) k \<and> (uint (hd k) = 48 \<longrightarrow> tl k = [])
     \<and> indexValue 0 k < 4294967295"

fun insertProp :: "(jsstring \<times> json) list \<Rightarrow> jsstring \<Rightarrow> json \<Rightarrow> (jsstring \<times> json) list" where
  "insertProp [] k v = [(k, v)]"
| "insertProp ((k', v') # kvs) k v =
     (if isArrayIndex k \<and> (\<not> isArrayIndex k' \<or> indexValue 0 k < indexValue 0 k')
      then (k, v) # (k', v') # kvs
      else (k', v') # insertProp kvs k v)"

definition setProp :: "(jsstring \<times> json) list \<Rightarrow> jsstring \<Rightarrow> json \<Rightarrow> (jsstring \<times> json) list" where
  "setProp kvs k v =
     (if k \<in> set (map fst kvs)
      then map (\<lambda>kv. if fst kv = k then (k, v) else kv) kvs
      else insertProp kvs k v)"

text \<open>
  The four functions of the runtime the wrapper calls on the settings file are not code
  of the repository. They are parameters of the model: \<open>decodeUtf8\<close> is what
  \<^verbatim>\<open>readFileSync(path, 'utf-8')\<close> makes of the bytes of a file, \<open>encodeUtf8\<close> the bytes
  \<^verbatim>\<open>writeFileSync\<close> writes for a string, \<open>parseJSON\<close> is \<^verbatim>\<open>JSON.parse\<close> (\<open>None\<close>
  when it throws) and \<open>stringifyJSON\<close> is \<^verbatim>\<open>JSON.stringify(value, null, 2)\<close>. A file is
  the list of its bytes, each a \<open>char\<close>.
\<close>

record runtime =
  decodeUtf8 :: "string \<Rightarrow> jsstring"
  encodeUtf8 :: "jsstring \<Rightarrow> string"
  parseJSON :: "jsstring \<Rightarrow> json option"
  stringifyJSON :: "json \<Rightarrow> jsstring"

subsection \<open>claude-wrapper.ts: the guarded hook commands\<close>

text \<open>
  Both \<^verbatim>\<open>spotifyPlayCmd\<close> and \<^verbatim>\<open>spotifyPauseCmd\<close> build the same guard from the path
  of the PID file: \<^verbatim>\<open>[ "$(cat '<pidFile>' 2>/dev/null)" = "$PPID" ] && \<close>.
\<close>

definition pidGuard :: "string \<Rightarrow> string" where
  "pidGuard pidFile =
     ''[ '' @ [DQ] @ ''$(cat '' @ [SQ] @ pidFile @ [SQ] @ '' 2>/dev/null)'' @ [DQ]
     @ '' = '' @ [DQ] @ ''$PPID'' @ [DQ] @ '' ] && ''"

definition osascriptTell :: "string \<Rightarrow> string" where
  "osascriptTell verb =
     ''osascript -e '' @ [SQ] @ ''tell application '' @ [DQ] @ ''Spotify'' @ [DQ]
     @ '' to '' @ verb @ [SQ]"

definition powershellControls :: "string \<Rightarrow> string" where
  "powershellControls verb =
     ''powershell -command '' @ [DQ] @ ''(New-Object -ComObject WMPlayer.OCX.7).controls.''
     @ verb @ ''()'' @ [DQ]"

definition dbusPlayer :: "string \<Rightarrow> string" where
  "dbusPlayer method =
     ''dbus-send --print-reply --dest=org.mpris.MediaPlayer2.spotify ''
     @ ''/org/mpris/MediaPlayer2 org.mpris.MediaPlayer2.Player.'' @ method"

text \<open>
  The commands \<^verbatim>\<open>playSpotifyNative\<close> and \<^verbatim>\<open>pauseSpotifyNative\<close> of
  \<^verbatim>\<open>spotify-native.ts\<close> execute, by platform.
\<close>

definition nativePlayCommand :: "platform \<Rightarrow> string" where
  "nativePlayCommand pf =
     (if pf = Darwin then osascriptTell ''play''
      else if pf = Win32 then powershellControls ''play''
      else dbusPlayer ''Play'')"

definition nativePauseCommand :: "platform \<Rightarrow> string" where
  "nativePauseCommand pf =
     (if pf = Darwin then osascriptTell ''pause''
      else if pf = Win32 then powershellControls ''pause''
      else dbusPlayer ''Pause'')"

text \<open>\<^verbatim>\<open>spotifyPlayCmd\<close> and \<^verbatim>\<open>spotifyPauseCmd\<close> of \<^verbatim>\<open>claude-wrapper.ts\<close>.\<close>

definition spotifyPlayCmd :: "platform \<Rightarrow> string \<Rightarrow> string" where
  "spotifyPlayCmd pf pidFile =
     (let guard = pidGuard pidFile in
      if pf = Darwin then guard @ osascriptTell ''play''
      else if pf = Win32 then guard @ powershellControls ''play''
      else guard @ dbusPlayer ''Play'')"

definition spotifyPauseCmd :: "platform \<Rightarrow> string \<Rightarrow> string" where
  "spotifyPauseCmd pf pidFile =
     (let guard = pidGuard pidFile in
      if pf = Darwin then guard @ osascriptTell ''pause''
      else if pf = Win32 then guard @ powershellControls ''pause''
      else guard @ dbusPlayer ''Pause'')"

subsection \<open>How a POSIX shell runs a guarded command\<close>

text \<open>
  The hook commands are run by a shell whose parent is the \<^verbatim>\<open>claude\<close> process that
  fires the hook. What the shell does with a command of the form
  \<^verbatim>\<open>[ "$(cat 'F' 2>/dev/null)" = "$PPID" ] && REST\<close> is fixed by POSIX and modelled here:
  the command substitution is the content of the file \<open>F\<close> without its trailing line
  feeds (empty when \<open>F\<close> cannot be read), \<^verbatim>\<open>$PPID\<close> is the decimal process id of the
  parent, \<^verbatim>\<open>[ x = y ]\<close> compares two strings, and \<open>REST\<close> runs only when the test
  succeeded.
\<close>

fun stripPrefix :: "string \<Rightarrow> string \<Rightarrow> string option" where
  "stripPrefix [] s = Some s"
| "stripPrefix (p # ps) [] = None"
| "stripPrefix (p # ps) (c # cs) = (if p = c then stripPrefix ps cs else None)"

definition guardOpening :: string where
  "guardOpening = ''[ '' @ [DQ] @ ''$(cat '' @ [SQ]"

definition guardClosing :: string where
  "guardClosing = [SQ] @ '' 2>/dev/null)'' @ [DQ] @ '' = '' @ [DQ] @ ''$PPID'' @ [DQ] @ '' ] && ''"

text \<open>A guarded command split into the file it reads and the command it guards.\<close>

definition splitGuarded :: "string \<Rightarrow> (string \<times> string) option" where
  "splitGuarded cmd =
     (case stripPrefix guardOpening cmd of
        None \<Rightarrow> None
      | Some s \<Rightarrow>
          (case stripPrefix guardClosing (dropWhile (\<lambda>c. c \<noteq> SQ) s) of
             None \<Rightarrow> None
           | Some rest \<Rightarrow> Some (takeWhile (\<lambda>c. c \<noteq> SQ) s, rest)))"

definition commandSubstitution :: "string option \<Rightarrow> string" where
  "commandSubstitution content =
     (case content of
        None \<Rightarrow> []
      | Some text \<Rightarrow> rev (dropWhile (\<lambda>c. c = LF) (rev text)))"

datatype hook_outcome =
    Ran string      \<comment> \<open>the guard passed and this command was executed\<close>
  | Skipped         \<comment> \<open>the guard failed: nothing was executed\<close>
  | NotGuarded      \<comment> \<open>the command is not of the guarded form\<close>

text \<open>
  \<open>runHook files ppid cmd\<close>: the shell with parent \<open>ppid\<close> runs \<open>cmd\<close>; \<open>files\<close> maps a
  path to the content of the file there.
\<close>

definition runHook :: "(string \<Rightarrow> string option) \<Rightarrow> nat \<Rightarrow> string \<Rightarrow> hook_outcome" where
  "runHook files ppid cmd =
     (case splitGuarded cmd of
        None \<Rightarrow> NotGuarded
      | Some (file, rest) \<Rightarrow>
          if commandSubstitution (files file) = decimal ppid then Ran rest else Skipped)"

subsection \<open>claude-wrapper.ts: reading, injecting and restoring the settings\<close>

text \<open>
  The settings file is \<open>None\<close> when it does not exist (or cannot be read) and \<open>Some bytes\<close>
  otherwise. \<^verbatim>\<open>readSettings\<close> answers \<^verbatim>\<open>{}\<close> when reading or parsing throws.
  \<^verbatim>\<open>writeSettings\<close> gives the new content of the file; a write that fails is not
  modelled. The first argument of each function is the runtime it runs in.
\<close>

definition readSettings :: "runtime \<Rightarrow> string option \<Rightarrow> json" where
  "readSettings rt file =
     (case file of
        None \<Rightarrow> JObj []
      | Some bytes \<Rightarrow>
          (case parseJSON rt (decodeUtf8 rt bytes) of None \<Rightarrow> JObj [] | Some v \<Rightarrow> v))"

definition writeSettings :: "runtime \<Rightarrow> json \<Rightarrow> string option" where
  "writeSettings rt obj = Some (encodeUtf8 rt (stringifyJSON rt obj))"

datatype js_error = TypeError | SyntaxError

definition thenE :: "'e + 'a \<Rightarrow> ('a \<Rightarrow> 'e + 'b) \<Rightarrow> 'e + 'b" where
  "thenE r f = (case r of Inl e \<Rightarrow> Inl e | Inr a \<Rightarrow> f a)"

text \<open>\<^verbatim>\<open>v ?? d\<close>: \<open>None\<close> is \<^verbatim>\<open>undefined\<close>.\<close>

definition coalesce :: "json option \<Rightarrow> json \<Rightarrow> json" where
  "coalesce v d = (case v of None \<Rightarrow> d | Some JNull \<Rightarrow> d | Some x \<Rightarrow> x)"

text \<open>The group the wrapper pushes: marked \<^verbatim>\<open>_tuneIn\<close>, with one command hook.\<close>

definition hookGroup :: "string \<Rightarrow> json" where
  "hookGroup cmd =
     JObj [(js ''_tuneIn'', JBool True),
           (js ''hooks'',
            JArr [JObj [(js ''type'', JStr (js ''command'')), (js ''command'', JStr (js cmd))]])]"

text \<open>
  \<^verbatim>\<open>hooks.E = hooks.E ?? []; hooks.E.push(entry)\<close> for an event name \<open>E\<close>, as JavaScript
  runs it on the value \<open>hooks\<close>: on an object, a value of \<open>E\<close> that is neither nullish nor
  an array has no \<^verbatim>\<open>push\<close> (TypeError); on an array the new property is not an element,
  so \<^verbatim>\<open>JSON.stringify\<close> will not write it; on a boolean, number or string the assignment
  throws (the compiled module is strict code).
\<close>

definition pushHook :: "string \<Rightarrow> json \<Rightarrow> json \<Rightarrow> js_error + json" where
  "pushHook event entry hooks =
     (case hooks of
        JObj kvs \<Rightarrow>
          (case coalesce (map_of kvs (js event)) (JArr []) of
             JArr entries \<Rightarrow> Inr (JObj (setProp kvs (js event) (JArr (entries @ [entry]))))
           | _ \<Rightarrow> Inl TypeError)
      | JArr xs \<Rightarrow> Inr (JArr xs)
      | _ \<Rightarrow> Inl TypeError)"

text \<open>
  Lines 54 to 77 of \<^verbatim>\<open>injectHooks\<close>, on the clone \<open>updated\<close>: the result is the value
  that \<^verbatim>\<open>JSON.stringify\<close> will see. Reading \<^verbatim>\<open>updated.hooks\<close> throws on
  \<^verbatim>\<open>null\<close>; a top-level array takes \<^verbatim>\<open>hooks\<close> as a property that is not written.
\<close>

definition addHooks :: "bool \<Rightarrow> string \<Rightarrow> platform \<Rightarrow> json \<Rightarrow> js_error + json" where
  "addHooks noPause pidFile pf updated =
     (case updated of
        JObj kvs \<Rightarrow>
          thenE (pushHook ''PreToolUse'' (hookGroup (spotifyPlayCmd pf pidFile))
                   (coalesce (map_of kvs (js ''hooks'')) (JObj [])))
            (\<lambda>h1.
               thenE (if \<not> noPause
                      then thenE (pushHook ''Stop'' (hookGroup (spotifyPauseCmd pf pidFile)) h1)
                             (\<lambda>h2. pushHook ''Notification''
                                      (hookGroup (spotifyPauseCmd pf pidFile)) h2)
                      else Inr h1)
                 (\<lambda>h. Inr (JObj (setProp kvs (js ''hooks'') h))))
      | JArr xs \<Rightarrow> Inr (JArr xs)
      | _ \<Rightarrow> Inl TypeError)"

text \<open>
  \<^verbatim>\<open>injectHooks(noPause, pidFile)\<close> on the settings file \<open>file\<close>: the snapshot it
  returns and the new content of the file, or the error it throws (then nothing was
  written). The deep clone is \<^verbatim>\<open>JSON.parse(JSON.stringify(original))\<close>.
\<close>

definition injectHooks ::
  "runtime \<Rightarrow> bool \<Rightarrow> string \<Rightarrow> platform \<Rightarrow> string option
     \<Rightarrow> js_error + (json \<times> string option)" where
  "injectHooks rt noPause pidFile pf file =
     (let original = readSettings rt file in
      case parseJSON rt (stringifyJSON rt original) of
        None \<Rightarrow> Inl SyntaxError
      | Some updated \<Rightarrow>
          thenE (addHooks noPause pidFile pf updated)
            (\<lambda>updated'. Inr (original, writeSettings rt updated')))"

definition restoreHooks :: "runtime \<Rightarrow> json \<Rightarrow> string option" where
  "restoreHooks rt original = writeSettings rt original"

text \<open>Install, then restore with the snapshot: the file at the end, when install returned.\<close>

definition installThenRestore ::
  "runtime \<Rightarrow> bool \<Rightarrow> string \<Rightarrow> platform \<Rightarrow> string option \<Rightarrow> js_error + string option" where
  "installThenRestore rt noPause pidFile pf file =
     thenE (injectHooks rt noPause pidFile pf file)
       (\<lambda>(original, written). Inr (restoreHooks rt original))"

subsection \<open>claude-wrapper.ts: the session\<close>

text \<open>
  Every call of \<^verbatim>\<open>playSpotifyNative\<close> and \<^verbatim>\<open>pauseSpotifyNative\<close> is recorded with
  the place in \<^verbatim>\<open>main\<close> it is made from. Both functions catch their own errors, so a
  call never throws.
\<close>

datatype signal = Play | Pause

datatype call_site =
    Launch     \<comment> \<open>line 113: start music immediately\<close>
  | Submit     \<comment> \<open>line 198: a chunk with carriage return or line feed\<close>
  | Typing     \<comment> \<open>line 169: \<^verbatim>\<open>onTypingPlay\<close>\<close>
  | Idle       \<comment> \<open>line 178: the callback of the idle timer\<close>
  | Cleanup    \<comment> \<open>line 227: \<^verbatim>\<open>cleanup\<close>\<close>

type_synonym byte = "8 word"

text \<open>
  The state of a session after \<^verbatim>\<open>main\<close> has set it up. The first five fields are
  constants of the session (the runtime it runs in among them), the next three are the
  \<^verbatim>\<open>let\<close> variables of \<^verbatim>\<open>main\<close>.
  The rest is the environment the handlers act on: the clock (milliseconds), the timeouts
  the event loop holds (handle and deadline), the two files, the terminal mode, the
  player calls so far, the handlers suspended at \<^verbatim>\<open>await cleanup()\<close> (each with the code
  it will exit with), and the exit code once \<^verbatim>\<open>process.exit\<close> was called.
  \<open>cleanupRuns\<close> and \<open>killsSent\<close> only count: how often the body of \<^verbatim>\<open>cleanup\<close> ran and
  how often \<^verbatim>\<open>claude.kill\<close> was called.
\<close>

record session =
  runtime :: runtime
  noPauseMode :: bool
  spotifyAvailable :: bool
  stdinIsTTY :: bool
  originalSettings :: json
  firstMessageSent :: bool
  charCount :: nat
  typingTimer :: "nat option"
  clock :: nat
  timeouts :: "(nat \<times> nat) list"
  nextHandle :: nat
  settingsFile :: "string option"
  pidFileContent :: "string option"
  rawMode :: bool
  playerCalls :: "(call_site \<times> signal) list"
  suspended :: "int list"
  exited :: "int option"
  cleanupRuns :: nat
  killsSent :: nat

definition TYPING_PLAY_THRESHOLD :: nat where
  "TYPING_PLAY_THRESHOLD = 3"

definition TYPING_IDLE_MS :: nat where
  "TYPING_IDLE_MS = 6000"

definition playSpotifyNative :: "call_site \<Rightarrow> session \<Rightarrow> session" where
  "playSpotifyNative site s = s\<lparr>playerCalls := playerCalls s @ [(site, Play)]\<rparr>"

definition pauseSpotifyNative :: "call_site \<Rightarrow> session \<Rightarrow> session" where
  "pauseSpotifyNative site s = s\<lparr>playerCalls := playerCalls s @ [(site, Pause)]\<rparr>"

text \<open>
  \<^verbatim>\<open>setTimeout\<close> registers a timeout under a fresh handle; \<^verbatim>\<open>clearTimeout\<close> removes
  the timeout with that handle, if the event loop still holds it.
\<close>

definition setTimeout :: "nat \<Rightarrow> session \<Rightarrow> nat \<times> session" where
  "setTimeout ms s =
     (nextHandle s,
      s\<lparr>timeouts := timeouts s @ [(nextHandle s, clock s + ms)],
        nextHandle := Suc (nextHandle s)\<rparr>)"

definition clearTimeout :: "nat \<Rightarrow> session \<Rightarrow> session" where
  "clearTimeout h s = s\<lparr>timeouts := filter (\<lambda>t. fst t \<noteq> h) (timeouts s)\<rparr>"

definition onTypingPlay :: "session \<Rightarrow> session" where
  "onTypingPlay s =
     (if noPauseMode s \<or> \<not> spotifyAvailable s then s else playSpotifyNative Typing s)"

definition scheduleTypingPause :: "session \<Rightarrow> session" where
  "scheduleTypingPause s =
     (let s1 = (case typingTimer s of Some h \<Rightarrow> clearTimeout h s | None \<Rightarrow> s) in
      if noPauseMode s1 \<or> \<not> spotifyAvailable s1 then s1
      else (let (h, s2) = setTimeout TYPING_IDLE_MS s1 in s2\<lparr>typingTimer := Some h\<rparr>))"

text \<open>The callback \<^verbatim>\<open>scheduleTypingPause\<close> hands to \<^verbatim>\<open>setTimeout\<close>.\<close>

definition typingTimerFired :: "session \<Rightarrow> session" where
  "typingTimerFired s = pauseSpotifyNative Idle (s\<lparr>typingTimer := None, charCount := 0\<rparr>)"

text \<open>
  The handler of \<^verbatim>\<open>process.stdin.on('data', ...)\<close>, lines 186 to 220. Its first
  statement forwards the chunk to the PTY; that, the forwarding of the PTY's output and the
  resize handler touch nothing the session state below holds, and are left out.
\<close>

definition isPrintable :: "byte \<Rightarrow> bool" where
  "isPrintable b \<longleftrightarrow> 0x20 \<le> b \<and> b < 0x7f"

definition onData :: "byte list \<Rightarrow> session \<Rightarrow> session" where
  "onData bytes s =
     (if 0x0d \<in> set bytes \<or> 0x0a \<in> set bytes then
        (let s1 = s\<lparr>firstMessageSent := True, charCount := 0\<rparr>;
             s2 = (case typingTimer s1 of
                     Some h \<Rightarrow> (clearTimeout h s1)\<lparr>typingTimer := None\<rparr>
                   | None \<Rightarrow> s1)
         in if spotifyAvailable s2 \<and> \<not> noPauseMode s2 then playSpotifyNative Submit s2 else s2)
      else if \<not> firstMessageSent s then s
      else
        (let printable = filter isPrintable bytes in
         if length printable = 0 then s
         else
           (let s1 = s\<lparr>charCount := charCount s + length printable\<rparr>;
                s2 = (if charCount s1 = TYPING_PLAY_THRESHOLD then onTypingPlay s1 else s1)
            in if charCount s2 \<ge> TYPING_PLAY_THRESHOLD then scheduleTypingPause s2 else s2)))"

text \<open>
  \<^verbatim>\<open>cleanup\<close>, lines 222 to 228, up to and including the call of
  \<^verbatim>\<open>pauseSpotifyNative\<close>. \<^verbatim>\<open>unlinkSync\<close> is inside a \<^verbatim>\<open>try\<close>: a missing PID
  file is no error.
\<close>

definition cleanup :: "session \<Rightarrow> session" where
  "cleanup s =
     (let s1 = (case typingTimer s of Some h \<Rightarrow> clearTimeout h s | None \<Rightarrow> s);
          s2 = s1\<lparr>pidFileContent := None\<rparr>;
          s3 = (if stdinIsTTY s2 then s2\<lparr>rawMode := False\<rparr> else s2);
          s4 = s3\<lparr>settingsFile := restoreHooks (runtime s3) (originalSettings s3)\<rparr>;
          s5 = (if spotifyAvailable s4 then pauseSpotifyNative Cleanup s4 else s4)
      in s5\<lparr>cleanupRuns := Suc (cleanupRuns s5)\<rparr>)"

text \<open>
  \<^verbatim>\<open>await cleanup()\<close> in a handler that will then call \<^verbatim>\<open>process.exit(code)\<close>. When
  the player is available, \<^verbatim>\<open>cleanup\<close> awaits the pause command it has started: the
  handler is suspended and the event loop goes on with other events until that command has
  finished. Otherwise \<^verbatim>\<open>cleanup\<close> returns without waiting for anything and the handler
  exits before any other event is handled.
\<close>

definition awaitCleanupThenExit :: "int \<Rightarrow> session \<Rightarrow> session" where
  "awaitCleanupThenExit code s =
     (let s1 = cleanup s in
      if spotifyAvailable s1 then s1\<lparr>suspended := suspended s1 @ [code]\<rparr>
      else s1\<lparr>exited := Some code\<rparr>)"

text \<open>\<^verbatim>\<open>claude.onExit\<close>, lines 230 to 233: \<^verbatim>\<open>exitCode ?? 0\<close>.\<close>

definition onExit :: "int option \<Rightarrow> session \<Rightarrow> session" where
  "onExit exitCode s =
     awaitCleanupThenExit (case exitCode of None \<Rightarrow> 0 | Some c \<Rightarrow> c) s"

text \<open>\<^verbatim>\<open>process.on('SIGINT', ...)\<close>, lines 235 to 239.\<close>

definition onSigint :: "session \<Rightarrow> session" where
  "onSigint s = awaitCleanupThenExit 130 (s\<lparr>killsSent := Suc (killsSent s)\<rparr>)"

text \<open>The pause command a suspended handler waits for has finished: the handler exits.\<close>

definition pauseFinished :: "session \<Rightarrow> session" where
  "pauseFinished s =
     (case suspended s of
        [] \<Rightarrow> s
      | code # rest \<Rightarrow> s\<lparr>suspended := rest, exited := Some code\<rparr>)"

text \<open>
  Time passes: the clock advances and the event loop runs the callback of every timeout
  that is due. All timeouts of a session are idle timers, so the callback is
  \<open>typingTimerFired\<close>.
\<close>

definition runDueTimers :: "session \<Rightarrow> session" where
  "runDueTimers s =
     (let due = filter (\<lambda>t. snd t \<le> clock s) (timeouts s);
          later = filter (\<lambda>t. \<not> snd t \<le> clock s) (timeouts s)
      in (typingTimerFired ^^ length due) (s\<lparr>timeouts := later\<rparr>))"

definition elapse :: "nat \<Rightarrow> session \<Rightarrow> session" where
  "elapse ms s = runDueTimers (s\<lparr>clock := clock s + ms\<rparr>)"

text \<open>
  What the event loop can deliver to a session. No handler runs after
  \<^verbatim>\<open>process.exit\<close>.
\<close>

datatype event =
    Stdin "byte list"         \<comment> \<open>a chunk of input\<close>
  | Elapse nat                \<comment> \<open>so many milliseconds pass\<close>
  | Sigint                    \<comment> \<open>the wrapper receives SIGINT\<close>
  | ChildExit "int option"    \<comment> \<open>the \<^verbatim>\<open>claude\<close> process has exited\<close>
  | PauseDone                 \<comment> \<open>the pause command of the oldest suspended cleanup has finished\<close>

fun handle :: "event \<Rightarrow> session \<Rightarrow> session" where
  "handle (Stdin bytes) s = onData bytes s"
| "handle (Elapse ms) s = elapse ms s"
| "handle Sigint s = onSigint s"
| "handle (ChildExit code) s = onExit code s"
| "handle PauseDone s = pauseFinished s"

definition step :: "session \<Rightarrow> event \<Rightarrow> session" where
  "step s e = (if exited s = None then handle e s else s)"

definition run :: "session \<Rightarrow> event list \<Rightarrow> session" where
  "run s es = foldl step s es"

text \<open>
  \<^verbatim>\<open>main\<close> up to the registration of the handlers. \<open>launch\<close> is what the wrapper finds
  when it starts: its arguments, the two answers of \<^verbatim>\<open>isSpotifyRunning\<close> (before and
  after \<^verbatim>\<open>openSpotify\<close>), the platform, what \<^verbatim>\<open>pty.spawn\<close> does (the process id of the
  child, or the error it throws), whether standard input is a terminal, the path of the PID
  file, the settings file, and the runtime. A failure to start ends the wrapper with exit
  code 1.
\<close>

datatype spawn_error = ENOENT | OtherSpawnError

record launch =
  argv :: "string list"
  runningAtStart :: bool
  runningAfterOpen :: bool
  platformOf :: platform
  spawned :: "spawn_error + nat"
  terminal :: bool
  pidFilePath :: string
  settingsAtStart :: "string option"
  runtimeOf :: runtime

definition main :: "launch \<Rightarrow> int + session" where
  "main l =
     (let noPause = (''--no-pause'' \<in> set (argv l));
          available = (if runningAtStart l then True else runningAfterOpen l);
          calls = (if available then [(Launch, Play)] else [])
      in case spawned l of
           Inl err \<Rightarrow> Inl 1
         | Inr pid \<Rightarrow>
             (case injectHooks (runtimeOf l) noPause (pidFilePath l) (platformOf l)
                     (settingsAtStart l) of
                Inl err \<Rightarrow> Inl 1
              | Inr (original, written) \<Rightarrow>
                  Inr \<lparr>runtime = runtimeOf l,
                       noPauseMode = noPause,
                       spotifyAvailable = available,
                       stdinIsTTY = terminal l,
                       originalSettings = original,
                       firstMessageSent = False,
                       charCount = 0,
                       typingTimer = None,
                       clock = 0,
                       timeouts = [],
                       nextHandle = 0,
                       settingsFile = written,
                       pidFileContent = Some (decimal pid),
                       rawMode = terminal l,
                       playerCalls = calls,
                       suspended = [],
                       exited = None,
                       cleanupRuns = 0,
                       killsSent = 0\<rparr>))"

text \<open>The wrapper as a whole: \<^verbatim>\<open>main\<close>, then the events the event loop delivers.\<close>

definition runWrapper :: "launch \<Rightarrow> event list \<Rightarrow> int + session" where
  "runWrapper l es = (case main l of Inl code \<Rightarrow> Inl code | Inr s0 \<Rightarrow> Inr (run s0 es))"

subsection \<open>Notions the statements below use\<close>

text \<open>
  The invariant of the idle timer: the event loop holds no timeout, or exactly the one
  whose handle is in \<^verbatim>\<open>typingTimer\<close>.
\<close>

definition timerInv :: "session \<Rightarrow> bool" where
  "timerInv s \<longleftrightarrow>
     timeouts s = [] \<or>
     (\<exists>h d. typingTimer s = Some h \<and> h < nextHandle s \<and> timeouts s = [(h, d)])"

text \<open>A chunk is a submission when it holds a carriage return or a line feed.\<close>

definition isSubmission :: "byte list \<Rightarrow> bool" where
  "isSubmission bytes \<longleftrightarrow> 0x0d \<in> set bytes \<or> 0x0a \<in> set bytes"

definition printableCount :: "byte list \<Rightarrow> nat" where
  "printableCount bytes = length (filter isPrintable bytes)"

text \<open>
  The value of \<^verbatim>\<open>charCount\<close> after each chunk of a typing burst that starts at \<open>n\<close>
  (chunks without printable bytes leave it as it is).
\<close>

fun countsAfter :: "nat \<Rightarrow> byte list list \<Rightarrow> nat list" where
  "countsAfter n [] = []"
| "countsAfter n (c # cs) = (n + printableCount c) # countsAfter (n + printableCount c) cs"

text \<open>
  A quiet stretch: time passes, and the only input is chunks that are neither a submission
  nor hold a printable byte (arrow keys are not among them: their escape sequences hold
  printable bytes). \<open>elapsed\<close> is the time such a stretch takes.
\<close>

fun quiet :: "event \<Rightarrow> bool" where
  "quiet (Elapse ms) = True"
| "quiet (Stdin bytes) = (\<not> isSubmission bytes \<and> printableCount bytes = 0)"
| "quiet e = False"

fun elapsed :: "event list \<Rightarrow> nat" where
  "elapsed [] = 0"
| "elapsed (Elapse ms # es) = ms + elapsed es"
| "elapsed (e # es) = elapsed es"





text \<open>
  The invariant of a session in which the idle timer is switched off (no-pause mode, or
  no player found at launch): no timeout is pending and the callback of the idle timer has
  sent no pause.
\<close>

definition unarmedInv :: "session \<Rightarrow> bool" where
  "unarmedInv s \<longleftrightarrow>
     (noPauseMode s \<or> \<not> spotifyAvailable s) \<and> timeouts s = [] \<and> typingTimer s = None \<and>
     (Idle, Pause) \<notin> set (playerCalls s)"

text \<open>
  The invariant of a session in no-pause mode: no idle timer is ever armed, and the player
  has been called at launch and by \<^verbatim>\<open>cleanup\<close> only.
\<close>

definition noPauseInv :: "session \<Rightarrow> bool" where
  "noPauseInv s \<longleftrightarrow>
     noPauseMode s \<and> timeouts s = [] \<and> typingTimer s = None \<and>
     playerCalls s = (if spotifyAvailable s
                      then (Launch, Play) # replicate (cleanupRuns s) (Cleanup, Pause)
                      else [])"

subsection \<open>The runtime of Node.js\<close>

text \<open>
  The runtime the concrete sessions and the examples run in, written after the Encoding
  Standard (UTF-8 decoding with U+FFFD for every ill-formed sequence, as
  \<^verbatim>\<open>Buffer.prototype.toString\<close> does it) and after ECMA-262 (\<^verbatim>\<open>JSON.parse\<close>,
  \<^verbatim>\<open>JSON.stringify\<close>, \<^verbatim>\<open>Number::toString\<close>, the rounding of a decimal literal to
  the nearest double). Code units, code points and bytes are integers inside these
  functions. The limits of a real machine (the depth of the parser's stack, the longest
  string) are not modelled. No statement about all runtimes depends on these definitions.
\<close>

text \<open>UTF-8: the decoder, with the range the next continuation byte must lie in.\<close>

fun decodeFrom :: "int \<Rightarrow> int \<Rightarrow> int \<Rightarrow> int \<Rightarrow> int list \<Rightarrow> int list" where
  "decodeFrom needed cp lo hi [] = (if needed = 0 then [] else [0xFFFD])"
| "decodeFrom needed cp lo hi (b # bs) =
     (if needed \<noteq> 0 \<and> lo \<le> b \<and> b \<le> hi then
        (if needed = 1 then (cp * 64 + (b - 0x80)) # decodeFrom 0 0 0x80 0xBF bs
         else decodeFrom (needed - 1) (cp * 64 + (b - 0x80)) 0x80 0xBF bs)
      else
        (if needed \<noteq> 0 then [0xFFFD] else []) @
        (if b \<le> 0x7F then b # decodeFrom 0 0 0x80 0xBF bs
         else if 0xC2 \<le> b \<and> b \<le> 0xDF then decodeFrom 1 (b - 0xC0) 0x80 0xBF bs
         else if 0xE0 \<le> b \<and> b \<le> 0xEF then
           decodeFrom 2 (b - 0xE0) (if b = 0xE0 then 0xA0 else 0x80)
             (if b = 0xED then 0x9F else 0xBF) bs
         else if 0xF0 \<le> b \<and> b \<le> 0xF4 then
           decodeFrom 3 (b - 0xF0) (if b = 0xF0 then 0x90 else 0x80)
             (if b = 0xF4 then 0x8F else 0xBF) bs
         else 0xFFFD # decodeFrom 0 0 0x80 0xBF bs))"

definition codeUnits :: "int \<Rightarrow> int list" where
  "codeUnits cp =
     (if cp < 0x10000 then [cp]
      else [0xD800 + (cp - 0x10000) div 0x400, 0xDC00 + (cp - 0x10000) mod 0x400])"

definition utf8Decode :: "string \<Rightarrow> jsstring" where
  "utf8Decode bytes =
     map word_of_int (concat (map codeUnits (decodeFrom 0 0 0x80 0xBF (map of_char bytes))))"

definition encodePoint :: "int \<Rightarrow> int list" where
  "encodePoint cp =
     (if cp < 0x80 then [cp]
      else if cp < 0x800 then [0xC0 + cp div 0x40, 0x80 + cp mod 0x40]
      else if cp < 0x10000 then
        [0xE0 + cp div 0x1000, 0x80 + cp div 0x40 mod 0x40, 0x80 + cp mod 0x40]
      else [0xF0 + cp div 0x40000, 0x80 + cp div 0x1000 mod 0x40,
            0x80 + cp div 0x40 mod 0x40, 0x80 + cp mod 0x40])"

definition isSurrogate :: "int \<Rightarrow> bool" where
  "isSurrogate u \<longleftrightarrow> 0xD800 \<le> u \<and> u \<le> 0xDFFF"

definition isPair :: "int \<Rightarrow> int \<Rightarrow> bool" where
  "isPair u v \<longleftrightarrow> 0xD800 \<le> u \<and> u \<le> 0xDBFF \<and> 0xDC00 \<le> v \<and> v \<le> 0xDFFF"

fun encodeUnits :: "int list \<Rightarrow> int list" where
  "encodeUnits [] = []"
| "encodeUnits [u] = encodePoint (if isSurrogate u then 0xFFFD else u)"
| "encodeUnits (u # v # us) =
     (if isPair u v
      then encodePoint (0x10000 + (u - 0xD800) * 0x400 + (v - 0xDC00)) @ encodeUnits us
      else encodePoint (if isSurrogate u then 0xFFFD else u) @ encodeUnits (v # us))"

definition utf8Encode :: "jsstring \<Rightarrow> string" where
  "utf8Encode s = map char_of (encodeUnits (map uint s))"

text \<open>
  Numbers. \<open>toDouble q\<close> is the double nearest to the rational \<open>q\<close>, ties to the even
  significand: \<open>binExp\<close> is the exponent of the unit in the last place of that double
  (\<open>-1074\<close> for the subnormal ones).
\<close>

function bitLength :: "int \<Rightarrow> int" where
  "bitLength n = (if n \<le> 0 then 0 else 1 + bitLength (n div 2))"
  by auto
termination by (relation "measure nat") auto

declare bitLength.simps [simp del]

function decLength :: "int \<Rightarrow> int" where
  "decLength n = (if n \<le> 0 then 0 else 1 + decLength (n div 10))"
  by auto
termination by (relation "measure nat") auto

declare decLength.simps [simp del]

definition pow :: "int \<Rightarrow> int \<Rightarrow> rat" where
  "pow b e = (if 0 \<le> e then of_int b ^ nat e else 1 / of_int b ^ nat (- e))"

definition binExp :: "rat \<Rightarrow> int" where
  "binExp q =
     (let (a, b) = quotient_of q;
          l = bitLength a - bitLength b;
          e0 = (if pow 2 l \<le> q then l - 52 else l - 53)
      in max e0 (- 1074))"

definition roundHalfEven :: "rat \<Rightarrow> int" where
  "roundHalfEven q =
     (let m = \<lfloor>q\<rfloor>; r = q - of_int m in
      if 1 / 2 < r \<or> (r = 1 / 2 \<and> odd m) then m + 1 else m)"

definition toDouble :: "rat \<Rightarrow> number" where
  "toDouble q =
     (if q = 0 then Num 0
      else
        (let a = \<bar>q\<bar>;
             e = binExp a;
             m = roundHalfEven (a / pow 2 e);
             v = of_int m * pow 2 e
         in if pow 2 1024 \<le> v then (if q < 0 then NegInfinity else PosInfinity)
            else if v = 0 then (if q < 0 then NegZero else Num 0)
            else Num (if q < 0 then - v else v)))"

text \<open>
  \<^verbatim>\<open>Number::toString\<close> for a positive double \<open>v\<close>: the digits \<open>s\<close>, their number \<open>k\<close>
  and the exponent \<open>n\<close> with \<open>s * 10^(n - k)\<close> rounding to \<open>v\<close>, \<open>k\<close> as small as possible
  and \<open>s\<close> as close to \<open>v\<close> as possible. \<open>roundsTo v x\<close>: the rational \<open>x\<close> rounds to the
  double \<open>v\<close>.
\<close>

definition decExp :: "rat \<Rightarrow> int" where
  "decExp v = (if 1 \<le> v then decLength \<lfloor>v\<rfloor> else 1 - decLength (\<lceil>1 / v\<rceil> - 1))"

definition roundsTo :: "rat \<Rightarrow> rat \<Rightarrow> bool" where
  "roundsTo v x =
     (let e = binExp v;
          m = \<lfloor>v / pow 2 e\<rfloor>;
          hi = v + pow 2 e / 2;
          lo = v - (if m = 2 ^ 52 \<and> - 1074 < e then pow 2 e / 4 else pow 2 e / 2)
      in if even m then lo \<le> x \<and> x \<le> hi else lo < x \<and> x < hi)"

fun shortest :: "nat \<Rightarrow> int \<Rightarrow> rat \<Rightarrow> int \<Rightarrow> int \<times> int \<times> int" where
  "shortest 0 k v n = (\<lfloor>v / pow 10 (n - k)\<rfloor>, k, n)"
| "shortest (Suc fuel) k v n =
     (let u = pow 10 (n - k);
          a = \<lfloor>v / u\<rfloor>;
          lower = of_int a * u;
          upper = of_int (a + 1) * u
      in if roundsTo v lower \<and> roundsTo v upper then
           (if v - lower < upper - v \<or> (v - lower = upper - v \<and> even a) then (a, k, n)
            else (a + 1, k, n))
         else if roundsTo v lower then (a, k, n)
         else if roundsTo v upper then (a + 1, k, n)
         else shortest fuel (k + 1) v n)"

definition digitsOf :: "rat \<Rightarrow> int \<times> int \<times> int" where
  "digitsOf v =
     (let (s, k, n) = shortest 17 1 v (decExp v)
      in if s = 10 ^ nat k then (1, 1, n + 1) else (s, k, n))"

function decimalUnits :: "int \<Rightarrow> int list" where
  "decimalUnits n =
     (if n < 10 then [48 + n] else decimalUnits (n div 10) @ [48 + n mod 10])"
  by auto
termination by (relation "measure nat") auto

declare decimalUnits.simps [simp del]

definition units :: "string \<Rightarrow> int list" where
  "units s = map of_char s"

definition finiteToString :: "rat \<Rightarrow> int list" where
  "finiteToString q =
     (if q = 0 then units ''0''
      else
        (let (s, k, n) = digitsOf \<bar>q\<bar>;
             ds = decimalUnits s;
             body =
               (if k \<le> n \<and> n \<le> 21 then ds @ replicate (nat (n - k)) 48
                else if 0 < n \<and> n \<le> 21 then take (nat n) ds @ units ''.'' @ drop (nat n) ds
                else if - 6 < n \<and> n \<le> 0 then units ''0.'' @ replicate (nat (- n)) 48 @ ds
                else
                  (let e = n - 1;
                       ex = units (if e < 0 then ''-'' else ''+'') @ decimalUnits \<bar>e\<bar>
                   in if k = 1 then ds @ units ''e'' @ ex
                      else take 1 ds @ units ''.'' @ drop 1 ds @ units ''e'' @ ex))
         in if q < 0 then units ''-'' @ body else body))"

text \<open>
  \<^verbatim>\<open>JSON.stringify\<close> writes a number that is not finite as \<^verbatim>\<open>null\<close>, and negative
  zero as \<^verbatim>\<open>0\<close>.
\<close>

definition numberToString :: "number \<Rightarrow> int list" where
  "numberToString x =
     (case x of
        Num q \<Rightarrow> finiteToString q
      | NegZero \<Rightarrow> units ''0''
      | PosInfinity \<Rightarrow> units ''null''
      | NegInfinity \<Rightarrow> units ''null'')"

text \<open>
  \<^verbatim>\<open>QuoteJSONString\<close>: the escapes of \<^verbatim>\<open>JSON.stringify\<close>. A surrogate that is not
  part of a pair is written as a \<^verbatim>\<open>\u\<close> escape.
\<close>

definition hexDigit :: "int \<Rightarrow> int" where
  "hexDigit n = (if n < 10 then 48 + n else 87 + n)"

definition quoteUnit :: "int \<Rightarrow> int list" where
  "quoteUnit u =
     (if u = 0x22 then [0x5C, 0x22]
      else if u = 0x5C then [0x5C, 0x5C]
      else if u = 0x08 then [0x5C, 0x62]
      else if u = 0x0C then [0x5C, 0x66]
      else if u = 0x0A then [0x5C, 0x6E]
      else if u = 0x0D then [0x5C, 0x72]
      else if u = 0x09 then [0x5C, 0x74]
      else if u < 0x20 \<or> isSurrogate u then
        [0x5C, 0x75, hexDigit (u div 0x1000), hexDigit (u div 0x100 mod 0x10),
         hexDigit (u div 0x10 mod 0x10), hexDigit (u mod 0x10)]
      else [u])"

fun quoteUnits :: "int list \<Rightarrow> int list" where
  "quoteUnits [] = []"
| "quoteUnits [u] = quoteUnit u"
| "quoteUnits (u # v # us) =
     (if isPair u v then u # v # quoteUnits us else quoteUnit u @ quoteUnits (v # us))"

definition quote :: "jsstring \<Rightarrow> int list" where
  "quote s = [0x22] @ quoteUnits (map uint s) @ [0x22]"

fun joinWith :: "int list \<Rightarrow> int list list \<Rightarrow> int list" where
  "joinWith sep [] = []"
| "joinWith sep [x] = x"
| "joinWith sep (x # y # ys) = x @ sep @ joinWith sep (y # ys)"

text \<open>
  \<^verbatim>\<open>JSON.stringify(value, null, 2)\<close>: \<open>ind\<close> is the current indentation; an empty
  array or object is written without a line break.
\<close>

fun serialize :: "int list \<Rightarrow> json \<Rightarrow> int list" where
  "serialize ind JNull = units ''null''"
| "serialize ind (JBool b) = units (if b then ''true'' else ''false'')"
| "serialize ind (JNum x) = numberToString x"
| "serialize ind (JStr s) = quote s"
| "serialize ind (JArr xs) =
     (if xs = [] then units ''[]''
      else units ''['' @ [0x0A] @ ind @ units ''  ''
           @ joinWith (units '','' @ [0x0A] @ ind @ units ''  '')
               (map (serialize (ind @ units ''  '')) xs)
           @ [0x0A] @ ind @ units '']'')"
| "serialize ind (JObj kvs) =
     (if kvs = [] then units ''{}''
      else units ''{'' @ [0x0A] @ ind @ units ''  ''
           @ joinWith (units '','' @ [0x0A] @ ind @ units ''  '')
               (map (\<lambda>kv. quote (fst kv) @ units '': '' @ serialize (ind @ units ''  '') (snd kv)) kvs)
           @ [0x0A] @ ind @ units ''}'')"

definition JSON_stringify :: "json \<Rightarrow> jsstring" where
  "JSON_stringify j = map word_of_int (serialize [] j)"

text \<open>\<^verbatim>\<open>JSON.parse\<close>: white space, numbers, strings.\<close>

definition isJsonWs :: "int \<Rightarrow> bool" where
  "isJsonWs c \<longleftrightarrow> c = 0x20 \<or> c = 0x09 \<or> c = 0x0A \<or> c = 0x0D"

definition skipWs :: "int list \<Rightarrow> int list" where
  "skipWs s = dropWhile isJsonWs s"

definition isDigitUnit :: "int \<Rightarrow> bool" where
  "isDigitUnit c \<longleftrightarrow> 48 \<le> c \<and> c \<le> 57"

fun digitsValue :: "int \<Rightarrow> int list \<Rightarrow> int" where
  "digitsValue acc [] = acc"
| "digitsValue acc (c # cs) = digitsValue (10 * acc + (c - 48)) cs"

text \<open>
  A number: an optional minus sign, \<^verbatim>\<open>0\<close> or digits that do not start with
  \<^verbatim>\<open>0\<close>, an optional fraction, an optional exponent. Its value is rounded to the
  nearest double.
\<close>

definition parseNumber :: "int list \<Rightarrow> (json \<times> int list) option" where
  "parseNumber s =
     (let neg = (s \<noteq> [] \<and> hd s = 0x2D);
          s1 = (if neg then tl s else s);
          ip = (if s1 \<noteq> [] \<and> hd s1 = 0x30 then [0x30] else takeWhile isDigitUnit s1);
          s2 = drop (length ip) s1;
          hasFrac = (s2 \<noteq> [] \<and> hd s2 = 0x2E);
          fp = (if hasFrac then takeWhile isDigitUnit (tl s2) else []);
          s3 = (if hasFrac then drop (length fp) (tl s2) else s2);
          hasExp = (s3 \<noteq> [] \<and> (hd s3 = 0x65 \<or> hd s3 = 0x45));
          s4 = (if hasExp then tl s3 else s3);
          expNeg = (hasExp \<and> s4 \<noteq> [] \<and> hd s4 = 0x2D);
          s5 = (if hasExp \<and> s4 \<noteq> [] \<and> (hd s4 = 0x2D \<or> hd s4 = 0x2B) then tl s4 else s4);
          ep = (if hasExp then takeWhile isDigitUnit s5 else []);
          rest = drop (length ep) s5
      in if ip = [] \<or> (hasFrac \<and> fp = []) \<or> (hasExp \<and> ep = []) then None
         else
           (let mant = digitsValue 0 (ip @ fp);
                ex = (if expNeg then - digitsValue 0 ep else digitsValue 0 ep) - int (length fp)
            in Some (JNum (if mant = 0 then (if neg then NegZero else Num 0)
                           else toDouble ((if neg then - 1 else 1) * of_int mant * pow 10 ex)),
                     rest)))"

definition hexVal :: "int \<Rightarrow> int option" where
  "hexVal c =
     (if 48 \<le> c \<and> c \<le> 57 then Some (c - 48)
      else if 97 \<le> c \<and> c \<le> 102 then Some (c - 87)
      else if 65 \<le> c \<and> c \<le> 70 then Some (c - 55)
      else None)"

definition unescape :: "int \<Rightarrow> int option" where
  "unescape e =
     (if e = 0x22 then Some 0x22
      else if e = 0x5C then Some 0x5C
      else if e = 0x2F then Some 0x2F
      else if e = 0x62 then Some 0x08
      else if e = 0x66 then Some 0x0C
      else if e = 0x6E then Some 0x0A
      else if e = 0x72 then Some 0x0D
      else if e = 0x74 then Some 0x09
      else None)"

text \<open>
  The code units of a string literal after its opening quote, up to the closing one; a raw
  control character is a syntax error.
\<close>

fun parseChars :: "int list \<Rightarrow> (int list \<times> int list) option" where
  "parseChars [] = None"
| "parseChars (c # cs) =
     (if c = 0x22 then Some ([], cs)
      else if c = 0x5C then
        (case cs of
           [] \<Rightarrow> None
         | e # r \<Rightarrow>
             if e = 0x75 then
               (case r of
                  h1 # h2 # h3 # h4 # r' \<Rightarrow>
                    (case (hexVal h1, hexVal h2, hexVal h3, hexVal h4) of
                       (Some a, Some b, Some c', Some d) \<Rightarrow>
                         map_option (\<lambda>(str, rest). ((((a * 16 + b) * 16 + c') * 16 + d) # str, rest))
                           (parseChars r')
                     | _ \<Rightarrow> None)
                | _ \<Rightarrow> None)
             else
               (case unescape e of
                  None \<Rightarrow> None
                | Some x \<Rightarrow> map_option (\<lambda>(str, rest). (x # str, rest)) (parseChars r)))
      else if c < 0x20 then None
      else map_option (\<lambda>(str, rest). (c # str, rest)) (parseChars cs))"

text \<open>
  The recursive descent over values, array elements and object members. The first
  argument bounds the number of nested calls; \<open>JSON_parse\<close> starts with twice the length
  of the text, which is never used up. A repeated key keeps its first place and its last
  value.
\<close>

fun parseValue :: "nat \<Rightarrow> int list \<Rightarrow> (json \<times> int list) option"
  and parseElements :: "nat \<Rightarrow> json list \<Rightarrow> int list \<Rightarrow> (json \<times> int list) option"
  and parseMembers :: "nat \<Rightarrow> (jsstring \<times> json) list \<Rightarrow> int list \<Rightarrow> (json \<times> int list) option"
where
  "parseValue 0 s = None"
| "parseValue (Suc n) s =
     (case skipWs s of
        [] \<Rightarrow> None
      | c # cs \<Rightarrow>
          if c = 0x7B then
            (if skipWs cs \<noteq> [] \<and> hd (skipWs cs) = 0x7D then Some (JObj [], tl (skipWs cs))
             else parseMembers n [] cs)
          else if c = 0x5B then
            (if skipWs cs \<noteq> [] \<and> hd (skipWs cs) = 0x5D then Some (JArr [], tl (skipWs cs))
             else parseElements n [] cs)
          else if c = 0x22 then
            map_option (\<lambda>(str, rest). (JStr (map word_of_int str), rest)) (parseChars cs)
          else if prefix (units ''true'') (c # cs) then Some (JBool True, drop 4 (c # cs))
          else if prefix (units ''false'') (c # cs) then Some (JBool False, drop 5 (c # cs))
          else if prefix (units ''null'') (c # cs) then Some (JNull, drop 4 (c # cs))
          else parseNumber (c # cs))"
| "parseElements 0 acc s = None"
| "parseElements (Suc n) acc s =
     (case parseValue n s of
        None \<Rightarrow> None
      | Some (v, r) \<Rightarrow>
          (case skipWs r of
             [] \<Rightarrow> None
           | c # r' \<Rightarrow>
               if c = 0x2C then parseElements n (acc @ [v]) r'
               else if c = 0x5D then Some (JArr (acc @ [v]), r')
               else None))"
| "parseMembers 0 acc s = None"
| "parseMembers (Suc n) acc s =
     (case skipWs s of
        [] \<Rightarrow> None
      | q # cs \<Rightarrow>
          if q \<noteq> 0x22 then None
          else
            (case parseChars cs of
               None \<Rightarrow> None
             | Some (k, r) \<Rightarrow>
                 (case skipWs r of
                    [] \<Rightarrow> None
                  | colon # r1 \<Rightarrow>
                      if colon \<noteq> 0x3A then None
                      else
                        (case parseValue n r1 of
                           None \<Rightarrow> None
                         | Some (v, r2) \<Rightarrow>
                             (case skipWs r2 of
                                [] \<Rightarrow> None
                              | c # r3 \<Rightarrow>
                                  if c = 0x2C
                                  then parseMembers n (setProp acc (map word_of_int k) v) r3
                                  else if c = 0x7D
                                  then Some (JObj (setProp acc (map word_of_int k) v), r3)
                                  else None)))))"

definition JSON_parse :: "jsstring \<Rightarrow> json option" where
  "JSON_parse s =
     (case parseValue (2 * length s + 2) (map uint s) of
        None \<Rightarrow> None
      | Some (v, rest) \<Rightarrow> if skipWs rest = [] then Some v else None)"

definition node :: runtime where
  "node = \<lparr>decodeUtf8 = utf8Decode, encodeUtf8 = utf8Encode,
           parseJSON = JSON_parse, stringifyJSON = JSON_stringify\<rparr>"

subsection \<open>Concrete launches\<close>

text \<open>
  A first start on macOS under Node.js with the player running, no settings file yet, the
  child with process id 4242; the same with \<^verbatim>\<open>--no-pause\<close>; and the same with no
  player to be found.
\<close>

definition exampleLaunch :: launch where
  "exampleLaunch =
     \<lparr>argv = [], runningAtStart = True, runningAfterOpen = True, platformOf = Darwin,
      spawned = Inr 4242, terminal = True, pidFilePath = ''/tmp/tune-in-claude.pid'',
      settingsAtStart = None, runtimeOf = node\<rparr>"

definition noPauseLaunch :: launch where
  "noPauseLaunch = exampleLaunch\<lparr>argv := [''--no-pause'']\<rparr>"

definition noPlayerLaunch :: launch where
  "noPlayerLaunch = exampleLaunch\<lparr>runningAtStart := False, runningAfterOpen := False\<rparr>"

text \<open>What \<^verbatim>\<open>injectHooks\<close> writes when there was no settings file.\<close>

definition freshHooks :: "bool \<Rightarrow> string \<Rightarrow> platform \<Rightarrow> json" where
  "freshHooks noPause pidFile pf =
     JObj [(js ''hooks'',
            JObj ((js ''PreToolUse'', JArr [hookGroup (spotifyPlayCmd pf pidFile)])
                  # (if noPause then []
                     else [(js ''Stop'', JArr [hookGroup (spotifyPauseCmd pf pidFile)]),
                           (js ''Notification'',
                            JArr [hookGroup (spotifyPauseCmd pf pidFile)])])))]"

text \<open>The session \<^verbatim>\<open>main\<close> sets up from a launch without a settings file.\<close>

definition freshSession :: "launch \<Rightarrow> nat \<Rightarrow> session" where
  "freshSession l pid =
     \<lparr>runtime = runtimeOf l,
      noPauseMode = (''--no-pause'' \<in> set (argv l)),
      spotifyAvailable = (runningAtStart l \<or> runningAfterOpen l),
      stdinIsTTY = terminal l,
      originalSettings = JObj [],
      firstMessageSent = False,
      charCount = 0,
      typingTimer = None,
      clock = 0,
      timeouts = [],
      nextHandle = 0,
      settingsFile = writeSettings (runtimeOf l)
        (freshHooks (''--no-pause'' \<in> set (argv l)) (pidFilePath l) (platformOf l)),
      pidFileContent = Some (decimal pid),
      rawMode = terminal l,
      playerCalls = (if runningAtStart l \<or> runningAfterOpen l then [(Launch, Play)] else []),
      suspended = [],
      exited = None,
      cleanupRuns = 0,
      killsSent = 0\<rparr>"

text \<open>
  The state of the first launch after a carriage return and then \<open>abc\<close> in one chunk: the
  third printable character has started the music and armed the idle timer.
\<close>

definition afterTypingAbc :: session where
  "afterTypingAbc =
     (freshSession exampleLaunch 4242)
       \<lparr>firstMessageSent := True, charCount := 3, typingTimer := Some 0,
        timeouts := [(0, 6000)], nextHandle := 1,
        playerCalls := [(Launch, Play), (Submit, Play), (Typing, Play)]\<rparr>"

text \<open>
  States of the three launches: after a carriage return; after SIGINT followed by the
  exit of the child while the pause of the first cleanup is still running; after the child
  has exited on its own.
\<close>

definition afterSubmit :: session where
  "afterSubmit =
     (freshSession exampleLaunch 4242)
       \<lparr>firstMessageSent := True, playerCalls := [(Launch, Play), (Submit, Play)]\<rparr>"

definition noPauseAfterSubmit :: session where
  "noPauseAfterSubmit = (freshSession noPauseLaunch 4242)\<lparr>firstMessageSent := True\<rparr>"

definition noPlayerAfterSubmit :: session where
  "noPlayerAfterSubmit = (freshSession noPlayerLaunch 4242)\<lparr>firstMessageSent := True\<rparr>"



subsection \<open>config.ts and spotify.ts: the Web API token\<close>

text \<open>
  The token store \<^verbatim>\<open>~/.tune-in/config.json\<close> holds a \<^verbatim>\<open>Config\<close>; every field is
  optional, and a missing file reads as the empty configuration. The store is taken to
  hold what \<^verbatim>\<open>saveConfig\<close> wrote (a file that does not parse makes \<^verbatim>\<open>loadConfig\<close>
  throw; that is not modelled). \<^verbatim>\<open>expiresAt\<close> is in milliseconds, as \<^verbatim>\<open>Date.now()\<close> is.
\<close>

record config =
  accessToken :: "string option"
  refreshToken :: "string option"
  expiresAt :: "int option"

text \<open>The HTTP requests the module sends, and how the player endpoint can answer.\<close>

datatype request =
    TokenRefresh string         \<comment> \<open>POST to the token endpoint, with this refresh token\<close>
  | PlayerPut signal string     \<comment> \<open>PUT to \<^verbatim>\<open>/v1/me/player/play\<close> or \<^verbatim>\<open>/pause\<close>, with this bearer token\<close>

datatype put_reply =
    PutOk
  | PutStatus nat               \<comment> \<open>an error response with this status\<close>
  | PutNoResponse               \<comment> \<open>an error without a response\<close>

datatype api_error = NotAuthenticated | NoRefreshToken | RequestFailed

datatype warning = NoActiveDevice | PremiumRequired

record world =
  stored :: config
  now :: nat
  requests :: "request list"
  warnings :: "warning list"

definition loadConfig :: "world \<Rightarrow> config" where
  "loadConfig w = stored w"

definition saveConfig :: "config \<Rightarrow> world \<Rightarrow> world" where
  "saveConfig c w = w\<lparr>stored := c\<rparr>"

text \<open>\<^verbatim>\<open>!v\<close> for an optional string and an optional number.\<close>

definition falsyString :: "string option \<Rightarrow> bool" where
  "falsyString v \<longleftrightarrow> v = None \<or> v = Some []"

definition falsyNumber :: "int option \<Rightarrow> bool" where
  "falsyNumber v \<longleftrightarrow> v = None \<or> v = Some 0"

text \<open>
  \<^verbatim>\<open>refreshAccessToken\<close>. \<open>tokenReply\<close> is the answer of the token endpoint to the POST
  (\<^verbatim>\<open>access_token\<close> and \<^verbatim>\<open>expires_in\<close>, or \<open>None\<close> when \<^verbatim>\<open>axios.post\<close> throws),
  \<open>latency\<close> the time the POST takes. The result is the value returned or the error
  thrown, and the world afterwards.
\<close>

definition refreshAccessToken ::
  "(string \<times> int) option \<Rightarrow> nat \<Rightarrow> world \<Rightarrow> (api_error + string) \<times> world" where
  "refreshAccessToken tokenReply latency w =
     (let config = loadConfig w in
      if falsyString (refreshToken config) then (Inl NoRefreshToken, w)
      else
        (let w1 = w\<lparr>now := now w + latency,
                     requests := requests w @ [TokenRefresh (the (refreshToken config))]\<rparr>
         in case tokenReply of
              None \<Rightarrow> (Inl RequestFailed, w1)
            | Some (access_token, expires_in) \<Rightarrow>
                (Inr access_token,
                 saveConfig (config\<lparr>accessToken := Some access_token,
                                    expiresAt := Some (int (now w1) + expires_in * 1000)\<rparr>) w1)))"

definition getValidAccessToken ::
  "(string \<times> int) option \<Rightarrow> nat \<Rightarrow> world \<Rightarrow> (api_error + string) \<times> world" where
  "getValidAccessToken tokenReply latency w =
     (let config = loadConfig w in
      if falsyString (accessToken config) \<or> falsyString (refreshToken config)
        then (Inl NotAuthenticated, w)
      else if falsyNumber (expiresAt config)
              \<or> the (expiresAt config) < int (now w) + 5 * 60 * 1000
        then refreshAccessToken tokenReply latency w
      else (Inr (the (accessToken config)), w))"

text \<open>
  \<^verbatim>\<open>playSpotify\<close> and \<^verbatim>\<open>pauseSpotify\<close>: the status 404 and 403 are warned about
  (play) or ignored (pause), any other failure is thrown.
\<close>

definition playSpotify ::
  "(string \<times> int) option \<Rightarrow> nat \<Rightarrow> put_reply \<Rightarrow> world \<Rightarrow> (api_error + unit) \<times> world" where
  "playSpotify tokenReply latency putReply w =
     (case getValidAccessToken tokenReply latency w of
        (Inl e, w1) \<Rightarrow> (Inl e, w1)
      | (Inr token, w1) \<Rightarrow>
          (let w2 = w1\<lparr>requests := requests w1 @ [PlayerPut Play token]\<rparr> in
           case putReply of
             PutOk \<Rightarrow> (Inr (), w2)
           | PutStatus status \<Rightarrow>
               if status = 404 then (Inr (), w2\<lparr>warnings := warnings w2 @ [NoActiveDevice]\<rparr>)
               else if status = 403 then (Inr (), w2\<lparr>warnings := warnings w2 @ [PremiumRequired]\<rparr>)
               else (Inl RequestFailed, w2)
           | PutNoResponse \<Rightarrow> (Inl RequestFailed, w2)))"

definition pauseSpotify ::
  "(string \<times> int) option \<Rightarrow> nat \<Rightarrow> put_reply \<Rightarrow> world \<Rightarrow> (api_error + unit) \<times> world" where
  "pauseSpotify tokenReply latency putReply w =
     (case getValidAccessToken tokenReply latency w of
        (Inl e, w1) \<Rightarrow> (Inl e, w1)
      | (Inr token, w1) \<Rightarrow>
          (let w2 = w1\<lparr>requests := requests w1 @ [PlayerPut Pause token]\<rparr> in
           case putReply of
             PutOk \<Rightarrow> (Inr (), w2)
           | PutStatus status \<Rightarrow>
               if status = 404 then (Inr (), w2)
               else if status = 403 then (Inr (), w2)
               else (Inl RequestFailed, w2)
           | PutNoResponse \<Rightarrow> (Inl RequestFailed, w2)))"

text \<open>
  The words of the claim: the stored expiry is absent, or less than five minutes in the
  future.
\<close>

definition expiresSoon :: "world \<Rightarrow> bool" where
  "expiresSoon w \<longleftrightarrow>
     (case expiresAt (stored w) of None \<Rightarrow> True | Some e \<Rightarrow> e < int (now w) + 300000)"

text \<open>A token store about to expire, and the same store an hour before its expiry.\<close>

definition staleWorld :: world where
  "staleWorld =
     \<lparr>stored = \<lparr>accessToken = Some ''old'', refreshToken = Some ''refresh'',
                 expiresAt = Some 1000299999\<rparr>,
      now = 1000000000, requests = [], warnings = []\<rparr>"

definition freshWorld :: world where
  "freshWorld = staleWorld\<lparr>now := 996400000\<rparr>"

subsection \<open>Settings documents for the statements about install and restore\<close>

text \<open>
  A settings document is well formed when it is an object whose \<^verbatim>\<open>hooks\<close>, if present
  and not \<^verbatim>\<open>null\<close>, is an object that maps the three event names the wrapper uses to
  lists, if at all (\<^verbatim>\<open>null\<close> counts as absent, as it does for \<^verbatim>\<open>??\<close>).
\<close>

definition isListOrAbsent :: "json option \<Rightarrow> bool" where
  "isListOrAbsent v =
     (case v of None \<Rightarrow> True | Some JNull \<Rightarrow> True | Some (JArr xs) \<Rightarrow> True | Some _ \<Rightarrow> False)"

definition wellFormedSettings :: "json \<Rightarrow> bool" where
  "wellFormedSettings j =
     (case j of
        JObj kvs \<Rightarrow>
          (case coalesce (map_of kvs (js ''hooks'')) (JObj []) of
             JObj hs \<Rightarrow>
               isListOrAbsent (map_of hs (js ''PreToolUse'')) \<and> isListOrAbsent (map_of hs (js ''Stop''))
               \<and> isListOrAbsent (map_of hs (js ''Notification''))
           | _ \<Rightarrow> False)
      | _ \<Rightarrow> False)"

text \<open>
  The document \<^verbatim>\<open>{"a":1}\<close> as a user may have written it, on one line, and as
  \<^verbatim>\<open>JSON.stringify(obj, null, 2)\<close> writes it, on three; a document with a hook of the
  user's own; and the document \<^verbatim>\<open>{"a": "\<close>\<open>e\<close>\<^verbatim>\<open>"}\<close> with an accented \<open>e\<close>, in the format of
  \<^verbatim>\<open>JSON.stringify\<close> but in Latin-1 (the byte \<open>0xE9\<close>, which is not UTF-8), and with
  that byte replaced by the three bytes of U+FFFD.
\<close>

definition compactSettings :: string where
  "compactSettings = ''{'' @ [DQ] @ ''a'' @ [DQ] @ '':1}''"

definition prettySettings :: string where
  "prettySettings = ''{'' @ [LF] @ ''  '' @ [DQ] @ ''a'' @ [DQ] @ '': 1'' @ [LF] @ ''}''"

definition userSettings :: json where
  "userSettings =
     JObj [(js ''model'', JStr (js ''opus'')),
           (js ''hooks'', JObj [(js ''Stop'', JArr [hookGroup ''say done''])])]"

definition latin1Settings :: string where
  "latin1Settings =
     ''{'' @ [LF] @ ''  '' @ [DQ] @ ''a'' @ [DQ] @ '': '' @ [DQ, CHR 0xE9, DQ] @ [LF] @ ''}''"

definition replacedSettings :: string where
  "replacedSettings =
     ''{'' @ [LF] @ ''  '' @ [DQ] @ ''a'' @ [DQ] @ '': '' @ [DQ, CHR 0xEF, CHR 0xBF, CHR 0xBD, DQ]
     @ [LF] @ ''}''"

section \<open>Theorems\<close>

subsection \<open>String helpers\<close>

lemma indexOfFrom_absent:
  "indexOfFrom s pat i = - 1 \<longleftrightarrow> \<not> sublist pat s"
proof (induction s arbitrary: i)
  case Nil
  then show ?case by simp
next
  case (Cons x xs)
  show ?case
  proof (cases "prefix pat (x # xs)")
    case True
    then show ?thesis by (simp add: sublist_Cons_right)
  next
    case False
    then show ?thesis using Cons.IH [of "Suc i"] by (simp add: sublist_Cons_right)
  qed
qed

lemma sublist_of_dropWhile:
  "sublist pat (dropWhile P s) \<Longrightarrow> sublist pat s"
  using sublist_order.order.trans [OF _ sublist_dropWhile] by blast

lemma sublist_trim:
  "sublist pat (trim s) \<Longrightarrow> sublist pat s"
proof -
  assume "sublist pat (trim s)"
  then have "sublist (rev pat) (dropWhile isWhiteSpace (rev (dropWhile isWhiteSpace s)))"
    by (simp add: trim_def sublist_rev_left)
  then have "sublist (rev pat) (rev (dropWhile isWhiteSpace s))"
    by (rule sublist_of_dropWhile)
  then have "sublist pat (dropWhile isWhiteSpace s)"
    by simp
  then show ?thesis by (rule sublist_of_dropWhile)
qed

subsection \<open>getCurrentTrack\<close>

text \<open>
  Claim C10. On every platform other than macOS \<^verbatim>\<open>getCurrentTrack\<close> returns
  \<^verbatim>\<open>null\<close>, whatever the player does (the function is total: it never throws); on
  macOS it returns \<^verbatim>\<open>null\<close> whenever the output of the player lacks the separator
  space, EM DASH, space (and also when the command fails).
\<close>

theorem getCurrentTrack_null:
  "(p \<noteq> Darwin \<longrightarrow> getCurrentTrack p r = None) \<and>
   (\<not> sublist TRACK_SEPARATOR stdout \<longrightarrow> getCurrentTrack Darwin (Some stdout) = None) \<and>
   getCurrentTrack Darwin None = None"
proof (intro conjI impI)
  assume "p \<noteq> Darwin"
  then show "getCurrentTrack p r = None" by (simp add: getCurrentTrack_def)
next
  assume "\<not> sublist TRACK_SEPARATOR stdout"
  then have "\<not> sublist TRACK_SEPARATOR (trim stdout)" using sublist_trim by blast
  then have "indexOf (trim stdout) TRACK_SEPARATOR = - 1"
    by (simp add: indexOf_def indexOfFrom_absent)
  then show "getCurrentTrack Darwin (Some stdout) = None"
    by (simp add: getCurrentTrack_def)
next
  show "getCurrentTrack Darwin None = None" by (simp add: getCurrentTrack_def)
qed

text \<open>
  Witness: Linux with a track playing (the output the player would print is never read),
  and macOS with an output without the separator, here \<open>ab\<close>.
\<close>

theorem getCurrentTrack_null_witness:
  "OtherPlatform \<noteq> Darwin \<and>
   getCurrentTrack OtherPlatform (Some [0x61, 0x20, 0x2014, 0x20, 0x62]) = None \<and>
   \<not> sublist TRACK_SEPARATOR [0x61, 0x62] \<and>
   getCurrentTrack Darwin (Some [0x61, 0x62]) = None"
proof -
  have a: "OtherPlatform \<noteq> Darwin" by simp
  have b: "\<not> sublist TRACK_SEPARATOR [0x61, 0x62]"
    by (simp add: TRACK_SEPARATOR_def sublist_Cons_right)
  from a b getCurrentTrack_null [of OtherPlatform "Some [0x61, 0x20, 0x2014, 0x20, 0x62]" "[0x61, 0x62]"]
  show ?thesis by blast
qed

text \<open>On macOS, an output with the separator is split around its first occurrence.\<close>

lemma getCurrentTrack_example:
  "getCurrentTrack Darwin (Some [0x61, 0x20, 0x2014, 0x20, 0x62, 0x0A])
     = Some \<lparr>name = [0x61], artist = [0x62]\<rparr>"
  by (simp add: getCurrentTrack_def trim_def isWhiteSpace_def indexOf_def TRACK_SEPARATOR_def
      slice_def sliceFrom_def relIndex_def)

subsection \<open>Starting a session\<close>

lemma js_inj [simp]: "js a = js b \<longleftrightarrow> a = b"
proof -
  have "inj (\<lambda>c :: char. (word_of_int (of_char c) :: 16 word))"
  proof (rule injI)
    fix x y :: char
    assume e: "(word_of_int (of_char x) :: 16 word) = word_of_int (of_char y)"
    have b: "(of_char c :: int) < 2 ^ 16" "0 \<le> (of_char c :: int)" for c :: char
    proof -
      have m: "(of_char c :: int) mod 256 = of_char c" by (rule of_char_mod_256)
      have "0 \<le> (of_char c :: int) mod 256" "(of_char c :: int) mod 256 < 256"
        by (rule pos_mod_sign, simp) (rule pos_mod_bound, simp)
      then show "(of_char c :: int) < 2 ^ 16" "0 \<le> (of_char c :: int)"
        unfolding m by simp_all
    qed
    have "uint (word_of_int (of_char c) :: 16 word) = of_char c" for c :: char
      using b [of c] by (simp add: uint_word_of_int take_bit_int_eq_self)
    with e have "(of_char x :: int) = of_char y" by metis
    then show "x = y" by simp
  qed
  then show ?thesis by (simp add: js_def inj_map_eq_map)
qed

lemma node_fields [simp]:
  "decodeUtf8 node = utf8Decode" "encodeUtf8 node = utf8Encode"
  "parseJSON node = JSON_parse" "stringifyJSON node = JSON_stringify"
  by (simp_all add: node_def)

lemma JSON_stringify_empty_object: "JSON_stringify (JObj []) = js ''{}''"
  by code_simp

lemma JSON_parse_empty_object: "JSON_parse (js ''{}'') = Some (JObj [])"
  by code_simp

lemma utf8Encode_empty_object: "utf8Encode (js ''{}'') = ''{}''"
  by code_simp

lemma node_clones_empty_object:
  "parseJSON node (stringifyJSON node (JObj [])) = Some (JObj [])"
  by (simp add: JSON_stringify_empty_object JSON_parse_empty_object)

lemma node_writes_empty_object: "writeSettings node (JObj []) = Some ''{}''"
  by (simp add: writeSettings_def JSON_stringify_empty_object utf8Encode_empty_object)

lemma not_index_names:
  "\<not> isArrayIndex (js ''hooks'')" "\<not> isArrayIndex (js ''PreToolUse'')"
  "\<not> isArrayIndex (js ''Stop'')" "\<not> isArrayIndex (js ''Notification'')"
  by code_simp+

lemma addHooks_empty:
  "addHooks noPause path pf (JObj []) = Inr (freshHooks noPause path pf)"
  by (simp add: addHooks_def pushHook_def coalesce_def thenE_def setProp_def freshHooks_def
      not_index_names)

lemma injectHooks_missing:
  "parseJSON rt (stringifyJSON rt (JObj [])) = Some (JObj []) \<Longrightarrow>
   injectHooks rt noPause path pf None
     = Inr (JObj [], writeSettings rt (freshHooks noPause path pf))"
  by (simp add: injectHooks_def readSettings_def addHooks_empty thenE_def)

lemma main_fresh:
  "settingsAtStart l = None \<Longrightarrow> spawned l = Inr pid \<Longrightarrow>
   parseJSON (runtimeOf l) (stringifyJSON (runtimeOf l) (JObj [])) = Some (JObj []) \<Longrightarrow>
   main l = Inr (freshSession l pid)"
  by (auto simp: main_def injectHooks_missing freshSession_def Let_def)

lemma main_exampleLaunch: "main exampleLaunch = Inr (freshSession exampleLaunch 4242)"
  by (rule main_fresh) (simp_all add: exampleLaunch_def JSON_stringify_empty_object JSON_parse_empty_object)

lemma main_noPauseLaunch: "main noPauseLaunch = Inr (freshSession noPauseLaunch 4242)"
  by (rule main_fresh) (simp_all add: noPauseLaunch_def exampleLaunch_def JSON_stringify_empty_object JSON_parse_empty_object)

lemma main_noPlayerLaunch: "main noPlayerLaunch = Inr (freshSession noPlayerLaunch 4242)"
  by (rule main_fresh) (simp_all add: noPlayerLaunch_def exampleLaunch_def JSON_stringify_empty_object JSON_parse_empty_object)

text \<open>The definitions a concrete run is evaluated with.\<close>

lemmas handler_defs =
  run_def step_def onData_def onTypingPlay_def scheduleTypingPause_def typingTimerFired_def
  setTimeout_def clearTimeout_def playSpotifyNative_def pauseSpotifyNative_def cleanup_def
  awaitCleanupThenExit_def onExit_def onSigint_def pauseFinished_def runDueTimers_def elapse_def
  isPrintable_def TYPING_PLAY_THRESHOLD_def TYPING_IDLE_MS_def restoreHooks_def writeSettings_def
  isSubmission_def printableCount_def

lemmas launch_defs =
  freshSession_def exampleLaunch_def noPauseLaunch_def noPlayerLaunch_def

lemma run_afterTypingAbc:
  "runWrapper exampleLaunch [Stdin [0x0d], Stdin [0x61, 0x62, 0x63]] = Inr afterTypingAbc"
  unfolding runWrapper_def main_exampleLaunch
  by (simp add: handler_defs launch_defs afterTypingAbc_def)

subsection \<open>The idle timer: at most one is pending\<close>

lemma timerInv_scheduleTypingPause:
  "timerInv s \<Longrightarrow> timerInv (scheduleTypingPause s)"
  by (auto simp: timerInv_def scheduleTypingPause_def clearTimeout_def setTimeout_def Let_def
      split: option.splits)

lemma timerInv_onData:
  "timerInv s \<Longrightarrow> timerInv (onData bytes s)"
proof -
  assume inv: "timerInv s"
  have submit: "timerInv (let s1 = s\<lparr>firstMessageSent := True, charCount := 0\<rparr>;
             s2 = (case typingTimer s1 of
                     Some h \<Rightarrow> (clearTimeout h s1)\<lparr>typingTimer := None\<rparr>
                   | None \<Rightarrow> s1)
         in if spotifyAvailable s2 \<and> \<not> noPauseMode s2 then playSpotifyNative Submit s2 else s2)"
    using inv
    by (auto simp: timerInv_def clearTimeout_def playSpotifyNative_def Let_def split: option.splits)
  have count: "timerInv (s\<lparr>charCount := n\<rparr>)" for n
    using inv by (simp add: timerInv_def)
  have play: "timerInv (onTypingPlay t)" if "timerInv t" for t
    using that by (simp add: timerInv_def onTypingPlay_def playSpotifyNative_def)
  show ?thesis
    unfolding onData_def Let_def
    using submit inv count play timerInv_scheduleTypingPause
    by (simp add: Let_def)
qed

lemma timerInv_cleanup:
  "timerInv s \<Longrightarrow> timerInv (cleanup s)"
  by (auto simp: timerInv_def cleanup_def clearTimeout_def pauseSpotifyNative_def Let_def
      split: option.splits)

lemma timerInv_awaitCleanupThenExit:
  "timerInv s \<Longrightarrow> timerInv (awaitCleanupThenExit code s)"
proof -
  assume "timerInv s"
  then have "timerInv (cleanup s)" by (rule timerInv_cleanup)
  then show ?thesis by (simp add: awaitCleanupThenExit_def Let_def timerInv_def)
qed

lemma timeouts_typingTimerFired:
  "timeouts (typingTimerFired s) = timeouts s"
  by (simp add: typingTimerFired_def pauseSpotifyNative_def)

lemma timerInv_elapse:
  "timerInv s \<Longrightarrow> timerInv (elapse ms s)"
proof -
  assume inv: "timerInv s"
  show ?thesis
  proof (cases "timeouts s = []")
    case True
    then show ?thesis
      by (simp add: timerInv_def elapse_def runDueTimers_def Let_def)
  next
    case False
    with inv obtain h d where
      t: "typingTimer s = Some h" "h < nextHandle s" "timeouts s = [(h, d)]"
      by (auto simp: timerInv_def)
    show ?thesis
    proof (cases "d \<le> clock s + ms")
      case True
      with t show ?thesis
        by (simp add: timerInv_def elapse_def runDueTimers_def Let_def timeouts_typingTimerFired)
    next
      case False
      with t show ?thesis
        by (simp add: timerInv_def elapse_def runDueTimers_def Let_def)
    qed
  qed
qed

lemma timerInv_step:
  "timerInv s \<Longrightarrow> timerInv (step s e)"
proof (cases e)
  case (Stdin bytes)
  assume "timerInv s"
  then show ?thesis using Stdin by (simp add: step_def timerInv_onData)
next
  case (Elapse ms)
  assume "timerInv s"
  then show ?thesis using Elapse by (simp add: step_def timerInv_elapse)
next
  case Sigint
  assume "timerInv s"
  then have "timerInv (s\<lparr>killsSent := Suc (killsSent s)\<rparr>)" by (simp add: timerInv_def)
  then show ?thesis using Sigint \<open>timerInv s\<close>
    by (simp add: step_def onSigint_def timerInv_awaitCleanupThenExit)
next
  case (ChildExit code)
  assume "timerInv s"
  then show ?thesis using ChildExit
    by (simp add: step_def onExit_def timerInv_awaitCleanupThenExit)
next
  case PauseDone
  assume "timerInv s"
  then show ?thesis using PauseDone
    by (simp add: step_def pauseFinished_def timerInv_def split: list.splits)
qed

lemma timerInv_run:
  "timerInv s \<Longrightarrow> timerInv (run s es)"
  by (induction es arbitrary: s) (simp_all add: run_def timerInv_step)

lemma timerInv_main:
  "main l = Inr s \<Longrightarrow> timerInv s"
  by (auto simp: main_def Let_def timerInv_def split: sum.splits)

lemma timerInv_length:
  "timerInv s \<Longrightarrow> length (timeouts s) \<le> 1"
  by (auto simp: timerInv_def)

lemma runWrapper_timerInv:
  "runWrapper l es = Inr s \<Longrightarrow> timerInv s"
  by (auto simp: runWrapper_def split: sum.splits intro: timerInv_run timerInv_main)

text \<open>
  Claim C6. In every state a session can reach, the event loop holds at most one idle
  timer. Scheduling a new one leaves at most one pending, and none of those that were pending
  before: the previous one is cancelled. A submission (a chunk with a carriage return or a
  line feed) leaves no idle timer pending.
\<close>

theorem one_idle_timer:
  assumes "runWrapper l es = Inr s"
  shows "length (timeouts s) \<le> 1 \<and>
         length (timeouts (scheduleTypingPause s)) \<le> 1 \<and>
         fst ` set (timeouts (scheduleTypingPause s)) \<inter> fst ` set (timeouts s) = {} \<and>
         (isSubmission bytes \<longrightarrow>
            timeouts (onData bytes s) = [] \<and> typingTimer (onData bytes s) = None)"
proof -
  from assms have inv: "timerInv s" by (rule runWrapper_timerInv)
  have a: "length (timeouts s) \<le> 1" using inv by (rule timerInv_length)
  have b: "length (timeouts (scheduleTypingPause s)) \<le> 1"
    using inv by (intro timerInv_length timerInv_scheduleTypingPause)
  have c: "fst ` set (timeouts (scheduleTypingPause s)) \<inter> fst ` set (timeouts s) = {}"
    using inv
    by (auto simp: timerInv_def scheduleTypingPause_def clearTimeout_def setTimeout_def Let_def
        split: option.splits)
  have d: "timeouts (onData bytes s) = [] \<and> typingTimer (onData bytes s) = None"
    if "isSubmission bytes"
    using inv that
    by (auto simp: timerInv_def onData_def isSubmission_def clearTimeout_def
        playSpotifyNative_def Let_def split: option.splits)
  from a b c d show ?thesis by blast
qed

text \<open>
  Witness: after a carriage return and \<open>abc\<close> the timer with handle 0 is pending;
  scheduling again replaces it by the timer with handle 1, and a carriage return cancels it.
\<close>

theorem one_idle_timer_witness:
  "runWrapper exampleLaunch [Stdin [0x0d], Stdin [0x61, 0x62, 0x63]] = Inr afterTypingAbc \<and>
   timeouts afterTypingAbc = [(0, 6000)] \<and>
   length (timeouts afterTypingAbc) \<le> 1 \<and>
   timeouts (scheduleTypingPause afterTypingAbc) = [(1, 6000)] \<and>
   fst ` set (timeouts (scheduleTypingPause afterTypingAbc)) \<inter> fst ` set (timeouts afterTypingAbc)
     = {} \<and>
   isSubmission [0x0d] \<and>
   timeouts (onData [0x0d] afterTypingAbc) = [] \<and>
   typingTimer (onData [0x0d] afterTypingAbc) = None"
proof -
  have sub: "isSubmission [0x0d]" by (simp add: isSubmission_def)
  have t: "timeouts afterTypingAbc = [(0, 6000)]" by (simp add: afterTypingAbc_def)
  have t': "timeouts (scheduleTypingPause afterTypingAbc) = [(1, 6000)]"
    by (simp add: afterTypingAbc_def handler_defs launch_defs)
  from one_idle_timer [OF run_afterTypingAbc, of "[0x0d]"] sub t t' run_afterTypingAbc
  show ?thesis by simp
qed

subsection \<open>The stdin handler\<close>

lemma onData_submission:
  assumes "isSubmission bytes"
  shows "firstMessageSent (onData bytes s)" "charCount (onData bytes s) = 0"
    "typingTimer (onData bytes s) = None"
    "playerCalls (onData bytes s)
       = playerCalls s @ (if spotifyAvailable s \<and> \<not> noPauseMode s then [(Submit, Play)] else [])"
  using assms
  by (auto simp: onData_def isSubmission_def clearTimeout_def playSpotifyNative_def Let_def
      split: option.splits)

lemma onData_quiet:
  "\<not> isSubmission bytes \<Longrightarrow> printableCount bytes = 0 \<Longrightarrow> onData bytes s = s"
  by (simp add: onData_def isSubmission_def printableCount_def Let_def)

lemma onData_before_first:
  "\<not> isSubmission bytes \<Longrightarrow> \<not> firstMessageSent s \<Longrightarrow> onData bytes s = s"
  by (simp add: onData_def isSubmission_def)

lemma scheduleTypingPause_frame:
  "playerCalls (scheduleTypingPause s) = playerCalls s"
  "charCount (scheduleTypingPause s) = charCount s"
  "firstMessageSent (scheduleTypingPause s) = firstMessageSent s"
  "spotifyAvailable (scheduleTypingPause s) = spotifyAvailable s"
  "noPauseMode (scheduleTypingPause s) = noPauseMode s"
  "exited (scheduleTypingPause s) = exited s"
  "clock (scheduleTypingPause s) = clock s"
  "cleanupRuns (scheduleTypingPause s) = cleanupRuns s"
  "suspended (scheduleTypingPause s) = suspended s"
  "pidFileContent (scheduleTypingPause s) = pidFileContent s"
  "settingsFile (scheduleTypingPause s) = settingsFile s"
  "originalSettings (scheduleTypingPause s) = originalSettings s"
  "stdinIsTTY (scheduleTypingPause s) = stdinIsTTY s"
  "rawMode (scheduleTypingPause s) = rawMode s"
  "runtime (scheduleTypingPause s) = runtime s"
  by (simp_all add: scheduleTypingPause_def clearTimeout_def setTimeout_def Let_def
      split: option.splits)

lemma onTypingPlay_frame:
  "charCount (onTypingPlay s) = charCount s"
  "firstMessageSent (onTypingPlay s) = firstMessageSent s"
  "spotifyAvailable (onTypingPlay s) = spotifyAvailable s"
  "noPauseMode (onTypingPlay s) = noPauseMode s"
  "exited (onTypingPlay s) = exited s"
  "clock (onTypingPlay s) = clock s"
  "timeouts (onTypingPlay s) = timeouts s"
  "typingTimer (onTypingPlay s) = typingTimer s"
  "nextHandle (onTypingPlay s) = nextHandle s"
  "cleanupRuns (onTypingPlay s) = cleanupRuns s"
  "suspended (onTypingPlay s) = suspended s"
  "pidFileContent (onTypingPlay s) = pidFileContent s"
  "settingsFile (onTypingPlay s) = settingsFile s"
  "originalSettings (onTypingPlay s) = originalSettings s"
  "stdinIsTTY (onTypingPlay s) = stdinIsTTY s"
  "rawMode (onTypingPlay s) = rawMode s"
  "runtime (onTypingPlay s) = runtime s"
  by (simp_all add: onTypingPlay_def playSpotifyNative_def)

lemma onData_typing:
  assumes "firstMessageSent s" "\<not> isSubmission c"
  shows "charCount (onData c s) = charCount s + printableCount c"
    and "playerCalls (onData c s)
       = playerCalls s @ (if 0 < printableCount c \<and> charCount s + printableCount c = TYPING_PLAY_THRESHOLD
                               \<and> spotifyAvailable s \<and> \<not> noPauseMode s
                          then [(Typing, Play)] else [])"
    and "firstMessageSent (onData c s)"
    and "spotifyAvailable (onData c s) = spotifyAvailable s"
    and "noPauseMode (onData c s) = noPauseMode s"
    and "exited (onData c s) = exited s"
  using assms
  by (auto simp: onData_def isSubmission_def printableCount_def Let_def scheduleTypingPause_frame
      onTypingPlay_frame onTypingPlay_def playSpotifyNative_def)


lemma countsAfter_ge: "m \<in> set (countsAfter n cs) \<Longrightarrow> n \<le> m"
  by (induction cs arbitrary: n) fastforce+

lemma run_Cons: "run s (e # es) = run (step s e) es"
  by (simp add: run_def)

lemma step_Stdin: "exited s = None \<Longrightarrow> step s (Stdin c) = onData c s"
  by (simp add: step_def)

lemma burst_past_threshold:
  assumes "firstMessageSent s" "exited s = None" "\<forall>c\<in>set chunks. \<not> isSubmission c"
    and "TYPING_PLAY_THRESHOLD \<le> charCount s"
  shows "playerCalls (run s (map Stdin chunks)) = playerCalls s"
  using assms
proof (induction chunks arbitrary: s)
  case Nil
  then show ?case by (simp add: run_def)
next
  case (Cons c cs)
  let ?s' = "onData c s"
  have c: "\<not> isSubmission c" using Cons.prems(3) by simp
  have calls: "playerCalls ?s' = playerCalls s"
  proof (cases "printableCount c = 0")
    case True
    then show ?thesis using c by (simp add: onData_quiet)
  next
    case False
    then show ?thesis
      using onData_typing(2) [OF Cons.prems(1) c] Cons.prems(4) by simp
  qed
  have "playerCalls (run ?s' (map Stdin cs)) = playerCalls ?s'"
  proof (rule Cons.IH)
    show "firstMessageSent ?s'" using onData_typing(3) [OF Cons.prems(1) c] .
    show "exited ?s' = None" using onData_typing(6) [OF Cons.prems(1) c] Cons.prems(2) by simp
    show "\<forall>c\<in>set cs. \<not> isSubmission c" using Cons.prems(3) by simp
    show "TYPING_PLAY_THRESHOLD \<le> charCount ?s'"
      using onData_typing(1) [OF Cons.prems(1) c] Cons.prems(4) by simp
  qed
  then show ?case using calls Cons.prems(2) by (simp add: run_Cons step_Stdin)
qed

lemma burst_plays_once:
  assumes "firstMessageSent s" "exited s = None" "\<forall>c\<in>set chunks. \<not> isSubmission c"
    and "spotifyAvailable s" "\<not> noPauseMode s"
    and "charCount s < TYPING_PLAY_THRESHOLD"
    and "TYPING_PLAY_THRESHOLD \<in> set (countsAfter (charCount s) chunks)"
  shows "playerCalls (run s (map Stdin chunks)) = playerCalls s @ [(Typing, Play)]"
  using assms
proof (induction chunks arbitrary: s)
  case Nil
  then show ?case by simp
next
  case (Cons c cs)
  let ?s' = "onData c s"
  have c: "\<not> isSubmission c" using Cons.prems(3) by simp
  note od = onData_typing [OF Cons.prems(1) c]
  have rest: "\<forall>c\<in>set cs. \<not> isSubmission c" using Cons.prems(3) by simp
  have ex: "exited ?s' = None" using od(6) Cons.prems(2) by simp
  have run: "run s (map Stdin (c # cs)) = run ?s' (map Stdin cs)"
    using Cons.prems(2) by (simp add: run_Cons step_Stdin)
  consider (hit) "charCount s + printableCount c = TYPING_PLAY_THRESHOLD"
    | (below) "charCount s + printableCount c < TYPING_PLAY_THRESHOLD"
    | (above) "TYPING_PLAY_THRESHOLD < charCount s + printableCount c"
    by linarith
  then show ?case
  proof cases
    case hit
    then have pos: "0 < printableCount c" using Cons.prems(6) by simp
    have "playerCalls ?s' = playerCalls s @ [(Typing, Play)]"
      using od(2) hit pos Cons.prems(4,5) by simp
    moreover have "playerCalls (run ?s' (map Stdin cs)) = playerCalls ?s'"
      using od(3) ex rest od(1) hit by (intro burst_past_threshold) simp_all
    ultimately show ?thesis using run by simp
  next
    case below
    have calls: "playerCalls ?s' = playerCalls s" using od(2) below by simp
    have mem: "TYPING_PLAY_THRESHOLD \<in> set (countsAfter (charCount ?s') cs)"
      using Cons.prems(7) below od(1) by auto
    have "playerCalls (run ?s' (map Stdin cs)) = playerCalls ?s' @ [(Typing, Play)]"
      using od(3) ex rest Cons.prems(4,5) od(4,5) below od(1) mem
      by (intro Cons.IH) simp_all
    then show ?thesis using run calls by simp
  next
    case above
    have "TYPING_PLAY_THRESHOLD \<in> set (countsAfter (charCount s + printableCount c) cs)"
      using Cons.prems(7) above by auto
    then have "charCount s + printableCount c \<le> TYPING_PLAY_THRESHOLD"
      by (rule countsAfter_ge)
    with above show ?thesis by simp
  qed
qed

lemma burst_never_plays:
  assumes "exited s = None" "\<forall>c\<in>set chunks. \<not> isSubmission c"
    and "noPauseMode s \<or> \<not> spotifyAvailable s"
  shows "playerCalls (run s (map Stdin chunks)) = playerCalls s"
  using assms
proof (induction chunks arbitrary: s)
  case Nil
  then show ?case by (simp add: run_def)
next
  case (Cons c cs)
  let ?s' = "onData c s"
  have c: "\<not> isSubmission c" using Cons.prems(2) by simp
  have frame: "playerCalls ?s' = playerCalls s \<and> exited ?s' = exited s
      \<and> noPauseMode ?s' = noPauseMode s \<and> spotifyAvailable ?s' = spotifyAvailable s"
  proof (cases "firstMessageSent s")
    case True
    then show ?thesis using onData_typing [OF True c] Cons.prems(3) by auto
  next
    case False
    then show ?thesis using c by (simp add: onData_before_first)
  qed
  have "playerCalls (run ?s' (map Stdin cs)) = playerCalls ?s'"
    using frame Cons.prems by (intro Cons.IH) simp_all
  then show ?case using frame Cons.prems(1) by (simp add: run_Cons step_Stdin)
qed

subsection \<open>Quiet stretches and the idle timer\<close>

lemma step_Elapse: "exited s = None \<Longrightarrow> step s (Elapse ms) = elapse ms s"
  by (simp add: step_def)

lemma elapse_no_timer:
  "timeouts s = [] \<Longrightarrow> elapse ms s = s\<lparr>clock := clock s + ms\<rparr>"
  by (simp add: elapse_def runDueTimers_def)

lemma elapse_not_due:
  "timeouts s = [(h, d)] \<Longrightarrow> clock s + ms < d \<Longrightarrow> elapse ms s = s\<lparr>clock := clock s + ms\<rparr>"
  by (simp add: elapse_def runDueTimers_def)

lemma elapse_due:
  "timeouts s = [(h, d)] \<Longrightarrow> d \<le> clock s + ms \<Longrightarrow>
   elapse ms s = s\<lparr>clock := clock s + ms, timeouts := [], typingTimer := None, charCount := 0,
                   playerCalls := playerCalls s @ [(Idle, Pause)]\<rparr>"
  by (simp add: elapse_def runDueTimers_def typingTimerFired_def pauseSpotifyNative_def)

lemma quiet_no_timer:
  assumes "exited s = None" "timeouts s = []" "\<forall>e\<in>set qs. quiet e"
  shows "run s qs = s\<lparr>clock := clock s + elapsed qs\<rparr>"
  using assms
proof (induction qs arbitrary: s)
  case Nil
  then show ?case by (simp add: run_def)
next
  case (Cons e es)
  show ?case
  proof (cases e)
    case (Stdin bytes)
    with Cons.prems have "step s e = s" by (simp add: step_def onData_quiet)
    with Cons Stdin show ?thesis by (simp add: run_Cons)
  next
    case (Elapse ms)
    with Cons.prems have st: "step s e = s\<lparr>clock := clock s + ms\<rparr>"
      by (simp add: step_Elapse elapse_no_timer)
    have "run (s\<lparr>clock := clock s + ms\<rparr>) es
        = (s\<lparr>clock := clock s + ms\<rparr>)\<lparr>clock := clock (s\<lparr>clock := clock s + ms\<rparr>) + elapsed es\<rparr>"
      using Cons.prems by (intro Cons.IH) simp_all
    with st Elapse show ?thesis by (simp add: run_Cons add.assoc)
  qed (use Cons.prems in simp_all)
qed

lemma quiet_before_deadline:
  assumes "exited s = None" "timeouts s = [(h, d)]" "\<forall>e\<in>set qs. quiet e"
    and "clock s + elapsed qs < d"
  shows "run s qs = s\<lparr>clock := clock s + elapsed qs\<rparr>"
  using assms
proof (induction qs arbitrary: s)
  case Nil
  then show ?case by (simp add: run_def)
next
  case (Cons e es)
  show ?case
  proof (cases e)
    case (Stdin bytes)
    with Cons.prems have "step s e = s" by (simp add: step_def onData_quiet)
    with Cons Stdin show ?thesis by (simp add: run_Cons)
  next
    case (Elapse ms)
    with Cons.prems have st: "step s e = s\<lparr>clock := clock s + ms\<rparr>"
      by (simp add: step_Elapse elapse_not_due)
    have "run (s\<lparr>clock := clock s + ms\<rparr>) es
        = (s\<lparr>clock := clock s + ms\<rparr>)\<lparr>clock := clock (s\<lparr>clock := clock s + ms\<rparr>) + elapsed es\<rparr>"
      using Cons.prems Elapse by (intro Cons.IH) simp_all
    with st Elapse show ?thesis by (simp add: run_Cons add.assoc)
  qed (use Cons.prems in simp_all)
qed

lemma quiet_past_deadline:
  assumes "exited s = None" "timeouts s = [(h, d)]" "\<forall>e\<in>set qs. quiet e"
    and "d \<le> clock s + elapsed qs" "clock s < d"
  shows "run s qs = s\<lparr>clock := clock s + elapsed qs, timeouts := [], typingTimer := None,
                       charCount := 0, playerCalls := playerCalls s @ [(Idle, Pause)]\<rparr>"
  using assms
proof (induction qs arbitrary: s)
  case Nil
  then show ?case by simp
next
  case (Cons e es)
  show ?case
  proof (cases e)
    case (Stdin bytes)
    with Cons.prems have "step s e = s" by (simp add: step_def onData_quiet)
    with Cons Stdin show ?thesis by (simp add: run_Cons)
  next
    case (Elapse ms)
    show ?thesis
    proof (cases "d \<le> clock s + ms")
      case True
      let ?t = "s\<lparr>clock := clock s + ms, timeouts := [], typingTimer := None, charCount := 0,
                   playerCalls := playerCalls s @ [(Idle, Pause)]\<rparr>"
      have st: "step s e = ?t"
        using Cons.prems Elapse True by (simp add: step_Elapse elapse_due)
      have "run ?t es = ?t\<lparr>clock := clock ?t + elapsed es\<rparr>"
        using Cons.prems by (intro quiet_no_timer) simp_all
      with st Elapse show ?thesis by (simp add: run_Cons add.assoc)
    next
      case False
      let ?t = "s\<lparr>clock := clock s + ms\<rparr>"
      have st: "step s e = ?t"
        using Cons.prems Elapse False by (simp add: step_Elapse elapse_not_due)
      have "run ?t es = ?t\<lparr>clock := clock ?t + elapsed es, timeouts := [], typingTimer := None,
                       charCount := 0, playerCalls := playerCalls ?t @ [(Idle, Pause)]\<rparr>"
        using Cons.prems Elapse False by (intro Cons.IH) simp_all
      with st Elapse show ?thesis by (simp add: run_Cons add.assoc)
    qed
  qed (use Cons.prems in simp_all)
qed

subsection \<open>Cleanup and the ways a session ends\<close>







lemma funpow_typingTimerFired_frame:
  "cleanupRuns ((typingTimerFired ^^ n) s) = cleanupRuns s"
  "exited ((typingTimerFired ^^ n) s) = exited s"
  "suspended ((typingTimerFired ^^ n) s) = suspended s"
  "spotifyAvailable ((typingTimerFired ^^ n) s) = spotifyAvailable s"
  "pidFileContent ((typingTimerFired ^^ n) s) = pidFileContent s"
  "settingsFile ((typingTimerFired ^^ n) s) = settingsFile s"
  "originalSettings ((typingTimerFired ^^ n) s) = originalSettings s"
  "stdinIsTTY ((typingTimerFired ^^ n) s) = stdinIsTTY s"
  "rawMode ((typingTimerFired ^^ n) s) = rawMode s"
  "runtime ((typingTimerFired ^^ n) s) = runtime s"
  "set (playerCalls s) \<subseteq> set (playerCalls ((typingTimerFired ^^ n) s))"
  by (induction n) (auto simp: typingTimerFired_def pauseSpotifyNative_def)

lemma funpow_typingTimerFired_mode:
  "noPauseMode ((typingTimerFired ^^ n) s) = noPauseMode s"
  by (induction n) (auto simp: typingTimerFired_def pauseSpotifyNative_def)



















lemma cleanup_eq:
  "cleanup s =
     s\<lparr>timeouts := (case typingTimer s of
                       Some h \<Rightarrow> filter (\<lambda>t. fst t \<noteq> h) (timeouts s)
                     | None \<Rightarrow> timeouts s),
       pidFileContent := None,
       rawMode := (if stdinIsTTY s then False else rawMode s),
       settingsFile := Some (encodeUtf8 (runtime s) (stringifyJSON (runtime s) (originalSettings s))),
       playerCalls := playerCalls s @ (if spotifyAvailable s then [(Cleanup, Pause)] else []),
       cleanupRuns := Suc (cleanupRuns s)\<rparr>"
  by (cases "typingTimer s")
    (simp_all add: cleanup_def Let_def clearTimeout_def pauseSpotifyNative_def
      restoreHooks_def writeSettings_def)




subsection \<open>Arming and re-arming the idle timer\<close>

lemma onData_arms:
  assumes "firstMessageSent s" "\<not> isSubmission c" "0 < printableCount c"
    and "TYPING_PLAY_THRESHOLD \<le> charCount s + printableCount c"
    and "spotifyAvailable s" "\<not> noPauseMode s" "timerInv s"
  shows "timeouts (onData c s) = [(nextHandle s, clock s + TYPING_IDLE_MS)]"
    and "typingTimer (onData c s) = Some (nextHandle s)"
    and "nextHandle (onData c s) = Suc (nextHandle s)"
    and "clock (onData c s) = clock s"
  using assms
  by (auto simp: onData_def isSubmission_def printableCount_def Let_def onTypingPlay_frame
      scheduleTypingPause_def clearTimeout_def setTimeout_def timerInv_def split: option.splits)

lemma onData_rearms:
  assumes "firstMessageSent s" "\<not> isSubmission q" "0 < printableCount q"
    and "TYPING_PLAY_THRESHOLD \<le> charCount s"
    and "spotifyAvailable s" "\<not> noPauseMode s"
    and "timeouts s = [(h, d)]" "typingTimer s = Some h" "h < nextHandle s"
  shows "timeouts (onData q s) = [(nextHandle s, clock s + TYPING_IDLE_MS)]"
    and "playerCalls (onData q s) = playerCalls s"
proof -
  have inv: "timerInv s" using assms(7-9) by (simp add: timerInv_def)
  have le: "TYPING_PLAY_THRESHOLD \<le> charCount s + printableCount q" using assms(4) by simp
  show "timeouts (onData q s) = [(nextHandle s, clock s + TYPING_IDLE_MS)]"
    using onData_arms(1) [OF assms(1-3) le assms(5,6) inv] .
  show "playerCalls (onData q s) = playerCalls s"
    using onData_typing(2) [OF assms(1,2)] assms(3,4) by simp
qed


lemma onData_submission_cancels:
  "timerInv s \<Longrightarrow> isSubmission bytes \<Longrightarrow> timeouts (onData bytes s) = []"
  by (auto simp: timerInv_def onData_def isSubmission_def clearTimeout_def
      playSpotifyNative_def Let_def split: option.splits)

lemma run_append: "run s (xs @ ys) = run (run s xs) ys"
  by (simp add: run_def)

subsection \<open>No-pause mode\<close>

lemma noPauseInv_onData:
  assumes "noPauseMode s" "timeouts s = []" "typingTimer s = None"
  shows "noPauseMode (onData bytes s)" "timeouts (onData bytes s) = []"
    "typingTimer (onData bytes s) = None" "playerCalls (onData bytes s) = playerCalls s"
    "cleanupRuns (onData bytes s) = cleanupRuns s"
    "spotifyAvailable (onData bytes s) = spotifyAvailable s"
  using assms
  by (simp_all add: onData_def Let_def onTypingPlay_def scheduleTypingPause_def)

lemma noPauseInv_elapse:
  assumes "noPauseMode s" "timeouts s = []" "typingTimer s = None"
  shows "noPauseMode (elapse ms s)" "timeouts (elapse ms s) = []"
    "typingTimer (elapse ms s) = None" "playerCalls (elapse ms s) = playerCalls s"
    "cleanupRuns (elapse ms s) = cleanupRuns s"
    "spotifyAvailable (elapse ms s) = spotifyAvailable s"
  using assms by (simp_all add: elapse_no_timer)

lemma noPauseInv_step:
  assumes "noPauseInv s"
  shows "noPauseInv (step s e)"
proof (cases "exited s = None")
  case False
  with assms show ?thesis by (auto simp: step_def)
next
  case live: True
  from assms have n: "noPauseMode s" "timeouts s = []" "typingTimer s = None"
    and calls: "playerCalls s = (if spotifyAvailable s
        then (Launch, Play) # replicate (cleanupRuns s) (Cleanup, Pause) else [])"
    by (simp_all add: noPauseInv_def)
  show ?thesis
  proof (cases e)
    case (Stdin bytes)
    then show ?thesis using live calls noPauseInv_onData [OF n]
      by (simp add: step_def noPauseInv_def)
  next
    case (Elapse ms)
    then show ?thesis using live calls noPauseInv_elapse [OF n]
      by (simp add: step_def noPauseInv_def)
  next
    case Sigint
    then show ?thesis using live calls n
      by (simp add: step_def noPauseInv_def onSigint_def awaitCleanupThenExit_def Let_def
          cleanup_eq replicate_append_same)
  next
    case (ChildExit code)
    then show ?thesis using live calls n
      by (simp add: step_def noPauseInv_def onExit_def awaitCleanupThenExit_def Let_def
          cleanup_eq replicate_append_same)
  next
    case PauseDone
    then show ?thesis using live calls n
      by (simp add: step_def noPauseInv_def pauseFinished_def split: list.splits)
  qed
qed

lemma noPauseInv_run: "noPauseInv s \<Longrightarrow> noPauseInv (run s es)"
  by (induction es arbitrary: s) (simp_all add: run_def noPauseInv_step)

lemma noPauseInv_main:
  "''--no-pause'' \<in> set (argv l) \<Longrightarrow> main l = Inr s \<Longrightarrow> noPauseInv s"
  by (auto simp: main_def Let_def noPauseInv_def split: sum.splits)

lemma runWrapper_noPauseInv:
  "''--no-pause'' \<in> set (argv l) \<Longrightarrow> runWrapper l es = Inr s \<Longrightarrow> noPauseInv s"
  by (auto simp: runWrapper_def split: sum.splits intro: noPauseInv_run noPauseInv_main)


subsection \<open>Sessions without an idle timer\<close>

lemma mode_step:
  "noPauseMode (step s e) = noPauseMode s" "spotifyAvailable (step s e) = spotifyAvailable s"
proof -
  have "noPauseMode (step s e) = noPauseMode s \<and> spotifyAvailable (step s e) = spotifyAvailable s"
  proof (cases e)
    case (Stdin bytes)
    then show ?thesis
      by (simp add: step_def onData_def Let_def clearTimeout_def playSpotifyNative_def
          onTypingPlay_frame scheduleTypingPause_frame split: option.splits)
  next
    case (Elapse ms)
    then show ?thesis
      by (simp add: step_def elapse_def runDueTimers_def Let_def funpow_typingTimerFired_mode
          funpow_typingTimerFired_frame(4))
  next
    case Sigint
    then show ?thesis
      by (simp add: step_def onSigint_def awaitCleanupThenExit_def Let_def cleanup_eq)
  next
    case (ChildExit code)
    then show ?thesis
      by (simp add: step_def onExit_def awaitCleanupThenExit_def Let_def cleanup_eq)
  next
    case PauseDone
    then show ?thesis by (simp add: step_def pauseFinished_def split: list.splits)
  qed
  then show "noPauseMode (step s e) = noPauseMode s"
    "spotifyAvailable (step s e) = spotifyAvailable s" by simp_all
qed

lemma mode_run:
  "noPauseMode (run s es) = noPauseMode s" "spotifyAvailable (run s es) = spotifyAvailable s"
  by (induction es arbitrary: s) (simp_all add: run_def mode_step)

lemma unarmed_onData:
  assumes "noPauseMode s \<or> \<not> spotifyAvailable s" "timeouts s = []" "typingTimer s = None"
  shows "timeouts (onData bytes s) = []" "typingTimer (onData bytes s) = None"
    "(Idle, Pause) \<in> set (playerCalls (onData bytes s)) \<longleftrightarrow> (Idle, Pause) \<in> set (playerCalls s)"
  using assms
  by (auto simp: onData_def Let_def onTypingPlay_def scheduleTypingPause_def
      playSpotifyNative_def)

lemma unarmedInv_step:
  assumes "unarmedInv s"
  shows "unarmedInv (step s e)"
proof (cases "exited s = None")
  case False
  with assms show ?thesis by (auto simp: step_def)
next
  case live: True
  from assms have m: "noPauseMode s \<or> \<not> spotifyAvailable s"
    and n: "timeouts s = []" "typingTimer s = None"
    and calls: "(Idle, Pause) \<notin> set (playerCalls s)"
    by (simp_all add: unarmedInv_def)
  have mode: "noPauseMode (step s e) \<or> \<not> spotifyAvailable (step s e)"
    using m by (simp add: mode_step)
  have rest: "timeouts (step s e) = [] \<and> typingTimer (step s e) = None \<and>
      (Idle, Pause) \<notin> set (playerCalls (step s e))"
  proof (cases e)
    case (Stdin bytes)
    then show ?thesis using live calls unarmed_onData [OF m n] by (simp add: step_def)
  next
    case (Elapse ms)
    then show ?thesis using live calls n by (simp add: step_def elapse_no_timer)
  next
    case Sigint
    then show ?thesis using live calls n
      by (simp add: step_def onSigint_def awaitCleanupThenExit_def Let_def cleanup_eq)
  next
    case (ChildExit code)
    then show ?thesis using live calls n
      by (simp add: step_def onExit_def awaitCleanupThenExit_def Let_def cleanup_eq)
  next
    case PauseDone
    then show ?thesis using live calls n
      by (simp add: step_def pauseFinished_def split: list.splits)
  qed
  with mode show ?thesis by (simp add: unarmedInv_def)
qed

lemma unarmedInv_run: "unarmedInv s \<Longrightarrow> unarmedInv (run s es)"
  by (induction es arbitrary: s) (simp_all add: run_def unarmedInv_step)

lemma unarmedInv_main:
  "main l = Inr s \<Longrightarrow> noPauseMode s \<or> \<not> spotifyAvailable s \<Longrightarrow> unarmedInv s"
  by (auto simp: main_def Let_def unarmedInv_def split: sum.splits if_splits)

lemma runWrapper_unarmedInv:
  assumes "runWrapper l es = Inr s" "noPauseMode s \<or> \<not> spotifyAvailable s"
  shows "unarmedInv s"
proof -
  from assms(1) obtain s0 where m: "main l = Inr s0" and s: "s = run s0 es"
    by (auto simp: runWrapper_def split: sum.splits)
  from assms(2) have "noPauseMode s0 \<or> \<not> spotifyAvailable s0" by (simp add: s mode_run)
  with m have "unarmedInv s0" by (rule unarmedInv_main)
  then show ?thesis unfolding s by (rule unarmedInv_run)
qed
subsection \<open>Claim C1: how often cleanup runs\<close>








subsection \<open>Claim C3: the play signal of a typing burst\<close>

lemma run_afterSubmit: "runWrapper exampleLaunch [Stdin [0x0d]] = Inr afterSubmit"
  unfolding runWrapper_def main_exampleLaunch
  by (simp add: handler_defs launch_defs afterSubmit_def)

lemma run_noPauseAfterSubmit: "runWrapper noPauseLaunch [Stdin [0x0d]] = Inr noPauseAfterSubmit"
  unfolding runWrapper_def main_noPauseLaunch
  by (simp add: handler_defs launch_defs noPauseAfterSubmit_def)

lemma run_noPlayerAfterSubmit: "runWrapper noPlayerLaunch [Stdin [0x0d]] = Inr noPlayerAfterSubmit"
  unfolding runWrapper_def main_noPlayerLaunch
  by (simp add: handler_defs launch_defs noPlayerAfterSubmit_def)

text \<open>
  Claim C3, as the code has it. A typing burst starts with the counter at zero after the
  first submission and consists of chunks without carriage return or line feed, with no
  timer firing in between. With the player available and pause-enabled mode, a burst whose
  counter is exactly 3 after one of its chunks makes exactly one call of
  \<^verbatim>\<open>playSpotifyNative\<close>, however many characters follow. In no-pause mode, or without a
  player, a burst makes no call at all: \<^verbatim>\<open>onTypingPlay\<close> returns at its guard.
\<close>

theorem typing_play_once:
  assumes "firstMessageSent s" "charCount s = 0" "exited s = None"
    and "\<forall>c\<in>set chunks. \<not> isSubmission c"
  shows "(spotifyAvailable s \<and> \<not> noPauseMode s \<and>
          TYPING_PLAY_THRESHOLD \<in> set (countsAfter 0 chunks) \<longrightarrow>
            playerCalls (run s (map Stdin chunks)) = playerCalls s @ [(Typing, Play)]) \<and>
         (noPauseMode s \<or> \<not> spotifyAvailable s \<longrightarrow>
            playerCalls (run s (map Stdin chunks)) = playerCalls s)"
proof (intro conjI impI)
  assume h: "spotifyAvailable s \<and> \<not> noPauseMode s \<and>
    TYPING_PLAY_THRESHOLD \<in> set (countsAfter 0 chunks)"
  have "charCount s < TYPING_PLAY_THRESHOLD"
    using assms(2) by (simp add: TYPING_PLAY_THRESHOLD_def)
  moreover have "TYPING_PLAY_THRESHOLD \<in> set (countsAfter (charCount s) chunks)"
    using h assms(2) by simp
  ultimately show "playerCalls (run s (map Stdin chunks)) = playerCalls s @ [(Typing, Play)]"
    using assms(1,3,4) h by (intro burst_plays_once) simp_all
next
  assume "noPauseMode s \<or> \<not> spotifyAvailable s"
  with assms(3,4) show "playerCalls (run s (map Stdin chunks)) = playerCalls s"
    by (rule burst_never_plays)
qed

text \<open>
  Witness: after a carriage return, the keys \<open>a\<close>, \<open>b\<close>, \<open>c\<close>, \<open>d\<close>, \<open>e\<close> one at a
  time give one play; in no-pause mode the same keys give none.
\<close>

theorem typing_play_once_witness:
  "firstMessageSent afterSubmit \<and> charCount afterSubmit = 0 \<and> exited afterSubmit = None \<and>
   spotifyAvailable afterSubmit \<and> \<not> noPauseMode afterSubmit \<and>
   countsAfter 0 [[0x61], [0x62], [0x63], [0x64], [0x65]] = [1, 2, 3, 4, 5] \<and>
   playerCalls (run afterSubmit (map Stdin [[0x61], [0x62], [0x63], [0x64], [0x65]]))
     = [(Launch, Play), (Submit, Play), (Typing, Play)] \<and>
   firstMessageSent noPauseAfterSubmit \<and> charCount noPauseAfterSubmit = 0 \<and>
   exited noPauseAfterSubmit = None \<and> noPauseMode noPauseAfterSubmit \<and>
   playerCalls (run noPauseAfterSubmit (map Stdin [[0x61], [0x62], [0x63], [0x64], [0x65]]))
     = [(Launch, Play)]"
proof -
  have c: "\<forall>c\<in>set [[0x61], [0x62], [0x63], [0x64], [0x65 :: byte]]. \<not> isSubmission c"
    by (simp add: isSubmission_def)
  have n: "countsAfter 0 [[0x61], [0x62], [0x63], [0x64], [0x65]] = [1, 2, 3, 4, 5]"
    by (simp add: printableCount_def isPrintable_def)
  have a: "firstMessageSent afterSubmit" "charCount afterSubmit = 0" "exited afterSubmit = None"
    "spotifyAvailable afterSubmit" "\<not> noPauseMode afterSubmit"
    "playerCalls afterSubmit = [(Launch, Play), (Submit, Play)]"
    by (simp_all add: afterSubmit_def launch_defs)
  have b: "firstMessageSent noPauseAfterSubmit" "charCount noPauseAfterSubmit = 0"
    "exited noPauseAfterSubmit = None" "noPauseMode noPauseAfterSubmit"
    "playerCalls noPauseAfterSubmit = [(Launch, Play)]"
    by (simp_all add: noPauseAfterSubmit_def launch_defs)
  from typing_play_once [OF a(1,2,3) c] typing_play_once [OF b(1,2,3) c] a b n
  show ?thesis by (simp add: TYPING_PLAY_THRESHOLD_def)
qed

text \<open>
  The claim as stated promises the play in every session. In no-pause mode the third
  printable character of a burst triggers nothing: the only call of the session is the one
  at launch.
\<close>

theorem typing_play_counterexample:
  "runWrapper noPauseLaunch [Stdin [0x0d], Stdin [0x61], Stdin [0x62], Stdin [0x63]]
     = Inr (noPauseAfterSubmit\<lparr>charCount := 3\<rparr>) \<and>
   playerCalls (noPauseAfterSubmit\<lparr>charCount := 3\<rparr>) = [(Launch, Play)]"
  unfolding runWrapper_def main_noPauseLaunch
  by (simp add: handler_defs launch_defs noPauseAfterSubmit_def)

text \<open>
  Not part of the statement above: what the code does when one chunk takes the counter
  past 3. Here \<open>abcd\<close> arrives in one chunk after a carriage return: the comparison
  \<^verbatim>\<open>charCount === TYPING_PLAY_THRESHOLD\<close> is never true, no play is sent, and the idle
  timer is armed all the same.
\<close>

lemma typing_jump_over_threshold:
  "runWrapper exampleLaunch [Stdin [0x0d], Stdin [0x61, 0x62, 0x63, 0x64]]
     = Inr (afterSubmit\<lparr>charCount := 4, typingTimer := Some 0, timeouts := [(0, 6000)],
                        nextHandle := 1\<rparr>)"
  unfolding runWrapper_def main_exampleLaunch
  by (simp add: handler_defs launch_defs afterSubmit_def)

subsection \<open>Claim C4: a submission\<close>

text \<open>
  Claim C4, as the code has it. In every state a session can reach, the handler of a
  chunk that holds a carriage return or a line feed sets \<^verbatim>\<open>firstMessageSent\<close>, resets
  the counter to zero, leaves no idle timer pending and none in \<^verbatim>\<open>typingTimer\<close>, and,
  in the same run of the handler, calls \<^verbatim>\<open>playSpotifyNative\<close> exactly when the player is
  available and no-pause mode is off; otherwise it calls nothing.
\<close>

theorem submission_handling:
  assumes "runWrapper l es = Inr s" "isSubmission bytes"
  shows "firstMessageSent (onData bytes s) \<and>
         charCount (onData bytes s) = 0 \<and>
         typingTimer (onData bytes s) = None \<and>
         timeouts (onData bytes s) = [] \<and>
         playerCalls (onData bytes s)
           = playerCalls s @ (if spotifyAvailable s \<and> \<not> noPauseMode s
                              then [(Submit, Play)] else [])"
proof -
  from assms(1) have "timerInv s" by (rule runWrapper_timerInv)
  then have "timeouts (onData bytes s) = []"
    using assms(2) by (rule onData_submission_cancels)
  with onData_submission [OF assms(2), of s] show ?thesis by simp
qed

text \<open>
  Witness: after \<open>abc\<close> the idle timer is pending; a chunk with a line feed cancels it and
  plays.
\<close>

theorem submission_handling_witness:
  "runWrapper exampleLaunch [Stdin [0x0d], Stdin [0x61, 0x62, 0x63]] = Inr afterTypingAbc \<and>
   isSubmission [0x78, 0x0a] \<and>
   timeouts afterTypingAbc = [(0, 6000)] \<and> charCount afterTypingAbc = 3 \<and>
   firstMessageSent (onData [0x78, 0x0a] afterTypingAbc) \<and>
   charCount (onData [0x78, 0x0a] afterTypingAbc) = 0 \<and>
   typingTimer (onData [0x78, 0x0a] afterTypingAbc) = None \<and>
   timeouts (onData [0x78, 0x0a] afterTypingAbc) = [] \<and>
   playerCalls (onData [0x78, 0x0a] afterTypingAbc)
     = [(Launch, Play), (Submit, Play), (Typing, Play), (Submit, Play)]"
proof -
  have sub: "isSubmission [0x78, 0x0a]" by (simp add: isSubmission_def)
  have a: "timeouts afterTypingAbc = [(0, 6000)]" "charCount afterTypingAbc = 3"
    "spotifyAvailable afterTypingAbc" "\<not> noPauseMode afterTypingAbc"
    "playerCalls afterTypingAbc = [(Launch, Play), (Submit, Play), (Typing, Play)]"
    by (simp_all add: afterTypingAbc_def launch_defs)
  from submission_handling [OF run_afterTypingAbc sub] run_afterTypingAbc sub a
  show ?thesis by simp
qed

text \<open>
  The claim as stated promises the play whenever no-pause mode is off. With no player to
  be found at launch (and pause-enabled mode), a carriage return calls nothing.
\<close>

theorem submission_without_player_counterexample:
  "runWrapper noPlayerLaunch [] = Inr (freshSession noPlayerLaunch 4242) \<and>
   isSubmission [0x0d] \<and>
   \<not> noPauseMode (freshSession noPlayerLaunch 4242) \<and>
   playerCalls (onData [0x0d] (freshSession noPlayerLaunch 4242)) = []"
  unfolding runWrapper_def main_noPlayerLaunch
  by (simp add: handler_defs launch_defs)

subsection \<open>Claim C5: the idle timer fires after 6000 ms\<close>

lemma idle_timer_fires:
  assumes reach: "runWrapper l es = Inr s" and live: "exited s = None"
    and mode: "spotifyAvailable s" "\<not> noPauseMode s"
    and first: "firstMessageSent s"
    and chunk: "\<not> isSubmission c" "0 < printableCount c"
      "TYPING_PLAY_THRESHOLD \<le> charCount s + printableCount c"
    and quiet: "\<forall>e\<in>set qs. quiet e"
  shows "(TYPING_IDLE_MS \<le> elapsed qs \<longrightarrow>
            playerCalls (run s (Stdin c # qs)) = playerCalls (onData c s) @ [(Idle, Pause)] \<and>
            charCount (run s (Stdin c # qs)) = 0 \<and>
            timeouts (run s (Stdin c # qs)) = []) \<and>
         (elapsed qs < TYPING_IDLE_MS \<longrightarrow>
            playerCalls (run s (Stdin c # qs)) = playerCalls (onData c s) \<and>
            timeouts (run s (Stdin c # qs)) = [(nextHandle s, clock s + TYPING_IDLE_MS)] \<and>
            (isSubmission q \<or> 0 < printableCount q \<longrightarrow>
               playerCalls (run s (Stdin c # qs @ [Stdin q]))
                 = playerCalls (onData c s) @ (if isSubmission q then [(Submit, Play)] else []) \<and>
               nextHandle s \<notin> fst ` set (timeouts (run s (Stdin c # qs @ [Stdin q])))))"
proof -
  let ?s1 = "onData c s"
  let ?d = "clock s + TYPING_IDLE_MS"
  from reach have inv: "timerInv s" by (rule runWrapper_timerInv)
  note armed = onData_arms [OF first chunk mode inv]
  note typed = onData_typing [OF first chunk(1)]
  have live1: "exited ?s1 = None" using typed(6) live by simp
  have run1: "run s (Stdin c # es') = run ?s1 es'" for es'
    using live by (simp add: run_Cons step_Stdin)
  have before: "clock ?s1 < ?d" using armed(4) by (simp add: TYPING_IDLE_MS_def)
  have late: "run ?s1 qs = ?s1\<lparr>clock := clock ?s1 + elapsed qs, timeouts := [],
        typingTimer := None, charCount := 0, playerCalls := playerCalls ?s1 @ [(Idle, Pause)]\<rparr>"
    if "TYPING_IDLE_MS \<le> elapsed qs"
    using live1 armed(1) quiet _ before
    by (rule quiet_past_deadline) (use that armed(4) in simp)
  have early: "run ?s1 qs = ?s1\<lparr>clock := clock ?s1 + elapsed qs\<rparr>"
    if "elapsed qs < TYPING_IDLE_MS"
    using live1 armed(1) quiet
    by (rule quiet_before_deadline) (use that armed(4) in simp)
  have partA: "playerCalls (run s (Stdin c # qs)) = playerCalls ?s1 @ [(Idle, Pause)] \<and>
      charCount (run s (Stdin c # qs)) = 0 \<and> timeouts (run s (Stdin c # qs)) = []"
    if "TYPING_IDLE_MS \<le> elapsed qs"
    using late [OF that] by (simp add: run1)
  have partB1: "playerCalls (run s (Stdin c # qs)) = playerCalls ?s1 \<and>
      timeouts (run s (Stdin c # qs)) = [(nextHandle s, ?d)]"
    if "elapsed qs < TYPING_IDLE_MS"
    using early [OF that] armed(1) by (simp add: run1)
  have partB2: "playerCalls (run s (Stdin c # qs @ [Stdin q]))
        = playerCalls ?s1 @ (if isSubmission q then [(Submit, Play)] else []) \<and>
      nextHandle s \<notin> fst ` set (timeouts (run s (Stdin c # qs @ [Stdin q])))"
    if e: "elapsed qs < TYPING_IDLE_MS" and q: "isSubmission q \<or> 0 < printableCount q"
  proof -
    let ?t = "?s1\<lparr>clock := clock ?s1 + elapsed qs\<rparr>"
    have "run s (Stdin c # qs @ [Stdin q]) = run (run ?s1 qs) [Stdin q]"
      by (simp add: run1 run_append)
    also have "\<dots> = run ?t [Stdin q]" using early [OF e] by (rule arg_cong)
    also have "\<dots> = step ?t (Stdin q)" by (simp add: run_def)
    also have "\<dots> = onData q ?t" using live1 by (simp add: step_def)
    finally have r: "run s (Stdin c # qs @ [Stdin q]) = onData q ?t" .
    show ?thesis
    proof (cases "isSubmission q")
      case True
      have tinv: "timerInv ?t" using armed(1,2,3) by (simp add: timerInv_def)
      have "timeouts (onData q ?t) = []"
        using tinv True by (rule onData_submission_cancels)
      moreover have "playerCalls (onData q ?t) = playerCalls ?s1 @ [(Submit, Play)]"
        using onData_submission(4) [OF True, of ?t] typed(4,5) mode by simp
      ultimately show ?thesis using True r by simp
    next
      case False
      with q have pos: "0 < printableCount q" by simp
      have cnt: "TYPING_PLAY_THRESHOLD \<le> charCount ?t" using typed(1) chunk(3) by simp
      have f: "firstMessageSent ?t" using typed(3) by simp
      have m: "spotifyAvailable ?t" "\<not> noPauseMode ?t" using typed(4,5) mode by simp_all
      have a: "timeouts ?t = [(nextHandle s, ?d)]" "typingTimer ?t = Some (nextHandle s)"
        "nextHandle s < nextHandle ?t"
        using armed(1,2,3) by simp_all
      note re = onData_rearms [OF f False pos cnt m a]
      have "timeouts (onData q ?t) = [(Suc (nextHandle s), clock ?t + TYPING_IDLE_MS)]"
        and "playerCalls (onData q ?t) = playerCalls ?s1"
        using re armed(3) by simp_all
      then show ?thesis using False r by simp
    qed
  qed
  from partA partB1 partB2 show ?thesis by blast
qed

text \<open>
  Claim C5, as the code has it. With the player available and pause-enabled mode: in a
  state a session can reach, after the first submission, a chunk \<open>c\<close> of typing takes the
  counter to the threshold or beyond and arms the idle timer. If it is followed by a quiet
  stretch of 6000 ms or more, exactly one pause is sent, the counter is zero and no timer
  is pending. During a quiet stretch of less than 6000 ms no pause is sent and the timer
  stays pending; a qualifying chunk \<open>q\<close> arriving then (a submission, or typing) removes
  that timer from the event loop, so it never fires, and sends no pause.

  In no-pause mode, or with no player found at launch, every state the session reaches has
  no timeout pending and no pause sent by the idle timer, and so has the state after any
  further event \<open>e\<close>.
\<close>

theorem idle_pause:
  assumes reach: "runWrapper l es = Inr s"
  shows "(exited s = None \<and> spotifyAvailable s \<and> \<not> noPauseMode s \<and> firstMessageSent s \<and>
          \<not> isSubmission c \<and> 0 < printableCount c \<and>
          TYPING_PLAY_THRESHOLD \<le> charCount s + printableCount c \<and> (\<forall>e\<in>set qs. quiet e) \<longrightarrow>
            (TYPING_IDLE_MS \<le> elapsed qs \<longrightarrow>
               playerCalls (run s (Stdin c # qs)) = playerCalls (onData c s) @ [(Idle, Pause)] \<and>
               charCount (run s (Stdin c # qs)) = 0 \<and>
               timeouts (run s (Stdin c # qs)) = []) \<and>
            (elapsed qs < TYPING_IDLE_MS \<longrightarrow>
               playerCalls (run s (Stdin c # qs)) = playerCalls (onData c s) \<and>
               timeouts (run s (Stdin c # qs)) = [(nextHandle s, clock s + TYPING_IDLE_MS)] \<and>
               (isSubmission q \<or> 0 < printableCount q \<longrightarrow>
                  playerCalls (run s (Stdin c # qs @ [Stdin q]))
                    = playerCalls (onData c s) @ (if isSubmission q then [(Submit, Play)] else []) \<and>
                  nextHandle s \<notin> fst ` set (timeouts (run s (Stdin c # qs @ [Stdin q])))))) \<and>
         (noPauseMode s \<or> \<not> spotifyAvailable s \<longrightarrow>
            timeouts s = [] \<and> typingTimer s = None \<and> (Idle, Pause) \<notin> set (playerCalls s) \<and>
            timeouts (step s e) = [] \<and> typingTimer (step s e) = None \<and>
            (Idle, Pause) \<notin> set (playerCalls (step s e)))"
proof (intro conjI impI)
  assume h: "exited s = None \<and> spotifyAvailable s \<and> \<not> noPauseMode s \<and> firstMessageSent s \<and>
          \<not> isSubmission c \<and> 0 < printableCount c \<and>
          TYPING_PLAY_THRESHOLD \<le> charCount s + printableCount c \<and> (\<forall>e\<in>set qs. quiet e)"
  then have live: "exited s = None" and mode: "spotifyAvailable s" "\<not> noPauseMode s"
    and first: "firstMessageSent s"
    and chunk: "\<not> isSubmission c" "0 < printableCount c"
      "TYPING_PLAY_THRESHOLD \<le> charCount s + printableCount c"
    and quiet: "\<forall>e\<in>set qs. quiet e"
    by simp_all
  note t = idle_timer_fires [OF reach live mode first chunk quiet, of q]
  {
    assume "TYPING_IDLE_MS \<le> elapsed qs"
    with t show "playerCalls (run s (Stdin c # qs)) = playerCalls (onData c s) @ [(Idle, Pause)]"
      and "charCount (run s (Stdin c # qs)) = 0"
      and "timeouts (run s (Stdin c # qs)) = []"
      by simp_all
  }
  {
    assume e: "elapsed qs < TYPING_IDLE_MS"
    with t show "playerCalls (run s (Stdin c # qs)) = playerCalls (onData c s)"
      and "timeouts (run s (Stdin c # qs)) = [(nextHandle s, clock s + TYPING_IDLE_MS)]"
      by simp_all
    assume "isSubmission q \<or> 0 < printableCount q"
    with t e show "playerCalls (run s (Stdin c # qs @ [Stdin q]))
          = playerCalls (onData c s) @ (if isSubmission q then [(Submit, Play)] else [])"
      and "nextHandle s \<notin> fst ` set (timeouts (run s (Stdin c # qs @ [Stdin q])))"
      by simp_all
  }
next
  assume off: "noPauseMode s \<or> \<not> spotifyAvailable s"
  with reach have inv: "unarmedInv s" by (rule runWrapper_unarmedInv)
  then have inv': "unarmedInv (step s e)" by (rule unarmedInv_step)
  from inv show "timeouts s = []" "typingTimer s = None" "(Idle, Pause) \<notin> set (playerCalls s)"
    by (simp_all add: unarmedInv_def)
  from inv' show "timeouts (step s e) = []" "typingTimer (step s e) = None"
    "(Idle, Pause) \<notin> set (playerCalls (step s e))"
    by (simp_all add: unarmedInv_def)
qed

text \<open>
  Witness: after a carriage return, \<open>abc\<close> arrives; 2500 ms, an escape byte and 3500 ms
  later the pause is sent. When only 5999 ms pass and \<open>d\<close> arrives, no pause is sent and
  the timer with handle 0 is gone. With no player found at launch, the same typing and 6000
  ms of silence leave no timer and no call of the player.
\<close>

theorem idle_pause_witness:
  "runWrapper exampleLaunch [Stdin [0x0d]] = Inr afterSubmit \<and>
   playerCalls (run afterSubmit [Stdin [0x61, 0x62, 0x63], Elapse 2500, Stdin [0x1b], Elapse 3500])
     = [(Launch, Play), (Submit, Play), (Typing, Play), (Idle, Pause)] \<and>
   charCount (run afterSubmit [Stdin [0x61, 0x62, 0x63], Elapse 2500, Stdin [0x1b], Elapse 3500])
     = 0 \<and>
   playerCalls (run afterSubmit [Stdin [0x61, 0x62, 0x63], Elapse 5999])
     = [(Launch, Play), (Submit, Play), (Typing, Play)] \<and>
   timeouts (run afterSubmit [Stdin [0x61, 0x62, 0x63], Elapse 5999]) = [(0, 6000)] \<and>
   playerCalls (run afterSubmit [Stdin [0x61, 0x62, 0x63], Elapse 5999, Stdin [0x64]])
     = [(Launch, Play), (Submit, Play), (Typing, Play)] \<and>
   0 \<notin> fst ` set (timeouts (run afterSubmit [Stdin [0x61, 0x62, 0x63], Elapse 5999, Stdin [0x64]])) \<and>
   runWrapper noPlayerLaunch [Stdin [0x0d], Stdin [0x61, 0x62, 0x63]]
     = Inr (noPlayerAfterSubmit\<lparr>charCount := 3\<rparr>) \<and>
   \<not> spotifyAvailable (noPlayerAfterSubmit\<lparr>charCount := 3\<rparr>) \<and>
   timeouts (noPlayerAfterSubmit\<lparr>charCount := 3\<rparr>) = [] \<and>
   timeouts (step (noPlayerAfterSubmit\<lparr>charCount := 3\<rparr>) (Elapse 6000)) = [] \<and>
   (Idle, Pause) \<notin> set (playerCalls (step (noPlayerAfterSubmit\<lparr>charCount := 3\<rparr>) (Elapse 6000)))"
proof -
  have a: "exited afterSubmit = None" "spotifyAvailable afterSubmit" "\<not> noPauseMode afterSubmit"
    "firstMessageSent afterSubmit" "nextHandle afterSubmit = 0" "clock afterSubmit = 0"
    "charCount afterSubmit = 0"
    by (simp_all add: afterSubmit_def launch_defs)
  have c: "\<not> isSubmission [0x61, 0x62, 0x63]" "0 < printableCount [0x61, 0x62, 0x63]"
    "TYPING_PLAY_THRESHOLD \<le> charCount afterSubmit + printableCount [0x61, 0x62, 0x63]"
    by (simp_all add: isSubmission_def printableCount_def isPrintable_def a(7)
        TYPING_PLAY_THRESHOLD_def)
  have q1: "\<forall>e\<in>set [Elapse 2500, Stdin [0x1b], Elapse 3500]. quiet e"
    by (simp add: isSubmission_def printableCount_def isPrintable_def)
  have q2: "\<forall>e\<in>set [Elapse 5999]. quiet e" by simp
  have k: "playerCalls (onData [0x61, 0x62, 0x63] afterSubmit)
      = [(Launch, Play), (Submit, Play), (Typing, Play)]"
    by (simp add: afterSubmit_def launch_defs handler_defs)
  have d: "\<not> isSubmission [0x64]" "0 < printableCount [0x64]"
    by (simp_all add: isSubmission_def printableCount_def isPrintable_def)
  have n: "runWrapper noPlayerLaunch [Stdin [0x0d], Stdin [0x61, 0x62, 0x63]]
     = Inr (noPlayerAfterSubmit\<lparr>charCount := 3\<rparr>)"
    unfolding runWrapper_def main_noPlayerLaunch
    by (simp add: handler_defs launch_defs noPlayerAfterSubmit_def)
  have p: "\<not> spotifyAvailable (noPlayerAfterSubmit\<lparr>charCount := 3\<rparr>)"
    by (simp add: noPlayerAfterSubmit_def launch_defs)
  from idle_pause [OF run_afterSubmit, of "[0x61, 0x62, 0x63]"
      "[Elapse 2500, Stdin [0x1b], Elapse 3500]" "[0x64]"]
    a c q1 k
  have w1: "playerCalls (run afterSubmit [Stdin [0x61, 0x62, 0x63], Elapse 2500, Stdin [0x1b], Elapse 3500])
       = [(Launch, Play), (Submit, Play), (Typing, Play), (Idle, Pause)] \<and>
     charCount (run afterSubmit [Stdin [0x61, 0x62, 0x63], Elapse 2500, Stdin [0x1b], Elapse 3500])
       = 0"
    by (simp add: TYPING_IDLE_MS_def)
  from idle_pause [OF run_afterSubmit, of "[0x61, 0x62, 0x63]" "[Elapse 5999]" "[0x64]"]
    a c q2 k d
  have w2: "playerCalls (run afterSubmit [Stdin [0x61, 0x62, 0x63], Elapse 5999])
       = [(Launch, Play), (Submit, Play), (Typing, Play)] \<and>
     timeouts (run afterSubmit [Stdin [0x61, 0x62, 0x63], Elapse 5999]) = [(0, 6000)] \<and>
     playerCalls (run afterSubmit [Stdin [0x61, 0x62, 0x63], Elapse 5999, Stdin [0x64]])
       = [(Launch, Play), (Submit, Play), (Typing, Play)] \<and>
     0 \<notin> fst ` set (timeouts (run afterSubmit [Stdin [0x61, 0x62, 0x63], Elapse 5999, Stdin [0x64]]))"
    by (simp add: TYPING_IDLE_MS_def)
  from idle_pause [OF n, of _ _ _ "Elapse 6000"] p
  have w3: "timeouts (noPlayerAfterSubmit\<lparr>charCount := 3\<rparr>) = [] \<and>
     timeouts (step (noPlayerAfterSubmit\<lparr>charCount := 3\<rparr>) (Elapse 6000)) = [] \<and>
     (Idle, Pause) \<notin> set (playerCalls (step (noPlayerAfterSubmit\<lparr>charCount := 3\<rparr>) (Elapse 6000)))"
    by simp
  from w1 w2 w3 n p run_afterSubmit show ?thesis by simp
qed

text \<open>
  The claim as stated promises the pause in every session. With no player to be found at
  launch, the counter reaches 3, 6000 ms pass without input, and no pause is sent, no timer
  was armed and the counter is still 3.
\<close>

theorem idle_pause_counterexample:
  "runWrapper noPlayerLaunch [Stdin [0x0d], Stdin [0x61, 0x62, 0x63], Elapse 6000]
     = Inr (noPlayerAfterSubmit\<lparr>charCount := 3, clock := 6000\<rparr>) \<and>
   \<not> noPauseMode noPlayerAfterSubmit \<and>
   playerCalls (noPlayerAfterSubmit\<lparr>charCount := 3, clock := 6000\<rparr>) = []"
  unfolding runWrapper_def main_noPlayerLaunch
  by (simp add: handler_defs launch_defs noPlayerAfterSubmit_def)

subsection \<open>Claim C7: no-pause mode\<close>

text \<open>
  Claim C7, as the code has it. In a session started with \<^verbatim>\<open>--no-pause\<close>, whatever
  the events: the player was called at launch (when it is available) and by
  \<^verbatim>\<open>cleanup\<close> at the end, and nowhere else. So the stdin handler and the idle timer send
  no pause; they send no play either, neither on a submission nor while typing; and no idle
  timer is ever pending.
\<close>

theorem no_pause_mode_calls:
  assumes "''--no-pause'' \<in> set (argv l)" "runWrapper l es = Inr s"
  shows "playerCalls s = (if spotifyAvailable s
                          then (Launch, Play) # replicate (cleanupRuns s) (Cleanup, Pause)
                          else []) \<and>
         timeouts s = [] \<and>
         (Idle, Pause) \<notin> set (playerCalls s) \<and>
         (Submit, Play) \<notin> set (playerCalls s) \<and>
         (Typing, Play) \<notin> set (playerCalls s)"
proof -
  from assms have "noPauseInv s" by (rule runWrapper_noPauseInv)
  then show ?thesis by (auto simp: noPauseInv_def)
qed

text \<open>
  Witness: a carriage return, \<open>abc\<close>, ten seconds of silence, then the child exits.
\<close>

theorem no_pause_mode_calls_witness:
  "''--no-pause'' \<in> set (argv noPauseLaunch) \<and>
   runWrapper noPauseLaunch
       [Stdin [0x0d], Stdin [0x61, 0x62, 0x63], Elapse 10000, ChildExit None, PauseDone]
     = Inr (noPauseAfterSubmit
         \<lparr>charCount := 3, clock := 10000, pidFileContent := None, rawMode := False,
          settingsFile := Some ''{}'', playerCalls := [(Launch, Play), (Cleanup, Pause)],
          exited := Some 0, cleanupRuns := 1\<rparr>)"
proof -
  have a: "''--no-pause'' \<in> set (argv noPauseLaunch)" by (simp add: noPauseLaunch_def)
  have r: "runWrapper noPauseLaunch
       [Stdin [0x0d], Stdin [0x61, 0x62, 0x63], Elapse 10000, ChildExit None, PauseDone]
     = Inr (noPauseAfterSubmit
         \<lparr>charCount := 3, clock := 10000, pidFileContent := None, rawMode := False,
          settingsFile := Some ''{}'', playerCalls := [(Launch, Play), (Cleanup, Pause)],
          exited := Some 0, cleanupRuns := 1\<rparr>)"
    unfolding runWrapper_def main_noPauseLaunch
    by (simp add: handler_defs launch_defs noPauseAfterSubmit_def JSON_stringify_empty_object utf8Encode_empty_object)
  from no_pause_mode_calls [OF a r] a r show ?thesis by simp
qed

text \<open>
  The claim as stated says that the play on every submission still occurs in no-pause
  mode. It does not: after a carriage return the only call is the one at launch.
\<close>

theorem no_pause_submission_counterexample:
  "runWrapper noPauseLaunch [Stdin [0x0d]] = Inr noPauseAfterSubmit \<and>
   noPauseMode noPauseAfterSubmit \<and>
   spotifyAvailable noPauseAfterSubmit \<and>
   playerCalls noPauseAfterSubmit = [(Launch, Play)]"
  by (simp add: run_noPauseAfterSubmit) (simp add: noPauseAfterSubmit_def launch_defs)

subsection \<open>Claim C8: the guard of the hook commands\<close>

lemma stripPrefix_append: "stripPrefix p (p @ s) = Some s"
  by (induction p) simp_all

lemma pidGuard_split: "pidGuard path = guardOpening @ path @ guardClosing"
  by (simp add: pidGuard_def guardOpening_def guardClosing_def)

lemma dropWhile_until:
  "\<forall>x\<in>set xs. P x \<Longrightarrow> \<not> P y \<Longrightarrow> dropWhile P (xs @ y # ys) = y # ys"
  by (induction xs) simp_all

lemma takeWhile_until:
  "\<forall>x\<in>set xs. P x \<Longrightarrow> \<not> P y \<Longrightarrow> takeWhile P (xs @ y # ys) = xs"
  by (induction xs) simp_all

lemma splitGuarded_pidGuard:
  assumes "SQ \<notin> set path"
  shows "splitGuarded (pidGuard path @ rest) = Some (path, rest)"
proof -
  obtain tail where g: "guardClosing = SQ # tail" by (simp add: guardClosing_def)
  have p: "\<forall>x\<in>set path. x \<noteq> SQ" using assms by auto
  have d: "dropWhile (\<lambda>c. c \<noteq> SQ) (path @ guardClosing @ rest) = guardClosing @ rest"
    using dropWhile_until [of path "\<lambda>c. c \<noteq> SQ" SQ "tail @ rest"] p by (simp add: g)
  have t: "takeWhile (\<lambda>c. c \<noteq> SQ) (path @ guardClosing @ rest) = path"
    using takeWhile_until [of path "\<lambda>c. c \<noteq> SQ" SQ "tail @ rest"] p by (simp add: g)
  have "stripPrefix guardOpening (pidGuard path @ rest) = Some (path @ guardClosing @ rest)"
    using stripPrefix_append [of guardOpening "path @ guardClosing @ rest"]
    by (simp add: pidGuard_split)
  then show ?thesis by (simp add: splitGuarded_def d t stripPrefix_append)
qed

lemma digit_of_nth:
  "d < 10 \<Longrightarrow> digitVal (''0123456789'' ! d) = d \<and> isDigit (''0123456789'' ! d)"
proof -
  assume "d < 10"
  then have "d = 0 \<or> d = 1 \<or> d = 2 \<or> d = 3 \<or> d = 4 \<or> d = 5 \<or> d = 6 \<or> d = 7
      \<or> d = 8 \<or> d = 9"
    by arith
  then show ?thesis by (elim disjE) (simp_all add: digitVal_def isDigit_def)
qed

lemma decimal_digits: "list_all isDigit (decimal n)"
proof (induction n rule: decimal.induct)
  case (1 n)
  show ?case
  proof (cases "n < 10")
    case True
    then show ?thesis using digit_of_nth [of n] by (subst decimal.simps) simp
  next
    case False
    then show ?thesis using 1 digit_of_nth [of "n mod 10"] by (subst decimal.simps) simp
  qed
qed

lemma decimal_value: "foldl (\<lambda>a c. 10 * a + digitVal c) 0 (decimal n) = n"
proof (induction n rule: decimal.induct)
  case (1 n)
  show ?case
  proof (cases "n < 10")
    case True
    then show ?thesis using digit_of_nth [of n] by (subst decimal.simps) simp
  next
    case False
    then show ?thesis using 1 digit_of_nth [of "n mod 10"] by (subst decimal.simps) simp
  qed
qed

lemma decimal_inj: "decimal a = decimal b \<Longrightarrow> a = b"
  by (metis decimal_value)

lemma decimal_nonempty: "decimal n \<noteq> []"
  by (subst decimal.simps) simp

lemma decimal_no_trailing_newline: "commandSubstitution (Some (decimal n)) = decimal n"
proof -
  have "isDigit (last (decimal n))"
    using decimal_digits [of n] decimal_nonempty [of n]
    by (simp add: list_all_iff)
  then have "last (decimal n) \<noteq> LF" by (auto simp: isDigit_def LF_def)
  then have "dropWhile (\<lambda>c. c = LF) (rev (decimal n)) = rev (decimal n)"
    using decimal_nonempty [of n] by (cases "rev (decimal n)") (auto simp: last_rev)
  then show ?thesis by (simp add: commandSubstitution_def)
qed

lemma spotifyPlayCmd_guarded: "spotifyPlayCmd pf path = pidGuard path @ nativePlayCommand pf"
  by (simp add: spotifyPlayCmd_def nativePlayCommand_def Let_def)

lemma spotifyPauseCmd_guarded: "spotifyPauseCmd pf path = pidGuard path @ nativePauseCommand pf"
  by (simp add: spotifyPauseCmd_def nativePauseCommand_def Let_def)

text \<open>
  Claim C8. For a PID file path without a single quote (the path is quoted with single
  quotes in the command): both hook commands are the guard followed by the native playback
  command; the shell runs that command exactly when the content of the PID file equals
  \<^verbatim>\<open>$PPID\<close>, the process id of the \<^verbatim>\<open>claude\<close> process that fires the hook, and
  runs nothing otherwise. So when the PID file names the child of session B, a hook fired
  by the child of session A (another process id) runs no playback command, while one fired
  by the child of B does.
\<close>

theorem guarded_hook_commands:
  assumes "SQ \<notin> set path"
  shows "spotifyPlayCmd pf path = pidGuard path @ nativePlayCommand pf \<and>
         spotifyPauseCmd pf path = pidGuard path @ nativePauseCommand pf \<and>
         runHook files ppid (spotifyPlayCmd pf path)
           = (if commandSubstitution (files path) = decimal ppid
              then Ran (nativePlayCommand pf) else Skipped) \<and>
         runHook files ppid (spotifyPauseCmd pf path)
           = (if commandSubstitution (files path) = decimal ppid
              then Ran (nativePauseCommand pf) else Skipped) \<and>
         (files path = Some (decimal pidB) \<and> pidA \<noteq> pidB \<longrightarrow>
            runHook files pidA (spotifyPlayCmd pf path) = Skipped \<and>
            runHook files pidA (spotifyPauseCmd pf path) = Skipped \<and>
            runHook files pidB (spotifyPlayCmd pf path) = Ran (nativePlayCommand pf) \<and>
            runHook files pidB (spotifyPauseCmd pf path) = Ran (nativePauseCommand pf))"
proof -
  have play: "runHook files p (spotifyPlayCmd pf path)
      = (if commandSubstitution (files path) = decimal p
         then Ran (nativePlayCommand pf) else Skipped)" for p
    by (simp add: runHook_def spotifyPlayCmd_guarded splitGuarded_pidGuard [OF assms])
  have pause: "runHook files p (spotifyPauseCmd pf path)
      = (if commandSubstitution (files path) = decimal p
         then Ran (nativePauseCommand pf) else Skipped)" for p
    by (simp add: runHook_def spotifyPauseCmd_guarded splitGuarded_pidGuard [OF assms])
  have other: "commandSubstitution (files path) \<noteq> decimal pidA"
    and own: "commandSubstitution (files path) = decimal pidB"
    if "files path = Some (decimal pidB)" "pidA \<noteq> pidB"
    using that decimal_inj [of pidB pidA] by (auto simp: decimal_no_trailing_newline)
  show ?thesis
    using play pause other own spotifyPlayCmd_guarded spotifyPauseCmd_guarded by simp
qed

text \<open>
  Witness: the PID file holds 4243; the hook fired by process 4242 is skipped, the one
  fired by 4243 runs the D-Bus command.
\<close>

theorem guarded_hook_commands_witness:
  "SQ \<notin> set ''/tmp/tune-in-claude.pid'' \<and>
   [''/tmp/tune-in-claude.pid'' \<mapsto> ''4243''] ''/tmp/tune-in-claude.pid'' = Some (decimal 4243) \<and>
   (4242 :: nat) \<noteq> 4243 \<and>
   runHook [''/tmp/tune-in-claude.pid'' \<mapsto> ''4243''] 4242
     (spotifyPlayCmd OtherPlatform ''/tmp/tune-in-claude.pid'') = Skipped \<and>
   runHook [''/tmp/tune-in-claude.pid'' \<mapsto> ''4243''] 4242
     (spotifyPauseCmd OtherPlatform ''/tmp/tune-in-claude.pid'') = Skipped \<and>
   runHook [''/tmp/tune-in-claude.pid'' \<mapsto> ''4243''] 4243
     (spotifyPlayCmd OtherPlatform ''/tmp/tune-in-claude.pid'') = Ran (dbusPlayer ''Play'') \<and>
   runHook [''/tmp/tune-in-claude.pid'' \<mapsto> ''4243''] 4243
     (spotifyPauseCmd OtherPlatform ''/tmp/tune-in-claude.pid'') = Ran (dbusPlayer ''Pause'')"
proof -
  let ?files = "[''/tmp/tune-in-claude.pid'' \<mapsto> ''4243'']"
  have q: "SQ \<notin> set ''/tmp/tune-in-claude.pid''" by (simp add: SQ_def)
  have d: "decimal 4243 = ''4243''" by (simp add: decimal.simps)
  have f: "?files ''/tmp/tune-in-claude.pid'' = Some (decimal 4243)" by (simp only: d) simp
  have n: "(4242 :: nat) \<noteq> 4243" by simp
  have c: "nativePlayCommand OtherPlatform = dbusPlayer ''Play''"
    "nativePauseCommand OtherPlatform = dbusPlayer ''Pause''"
    by (simp_all add: nativePlayCommand_def nativePauseCommand_def)
  note t = guarded_hook_commands [OF q, where pf = OtherPlatform and files = ?files
      and ppid = 4243 and pidA = 4242 and pidB = 4243]
  from t f n have
    "runHook ?files 4242 (spotifyPlayCmd OtherPlatform ''/tmp/tune-in-claude.pid'') = Skipped \<and>
     runHook ?files 4242 (spotifyPauseCmd OtherPlatform ''/tmp/tune-in-claude.pid'') = Skipped \<and>
     runHook ?files 4243 (spotifyPlayCmd OtherPlatform ''/tmp/tune-in-claude.pid'')
       = Ran (nativePlayCommand OtherPlatform) \<and>
     runHook ?files 4243 (spotifyPauseCmd OtherPlatform ''/tmp/tune-in-claude.pid'')
       = Ran (nativePauseCommand OtherPlatform)"
    by blast
  with q f n show ?thesis unfolding c by blast
qed

subsection \<open>Claim C9: refreshing the Web API token\<close>

lemma stale_iff_expiresSoon:
  "falsyNumber (expiresAt (stored w)) \<or> the (expiresAt (stored w)) < int (now w) + 5 * 60 * 1000
     \<longleftrightarrow> expiresSoon w"
  by (auto simp: falsyNumber_def expiresSoon_def split: option.splits)

lemma getValidAccessToken_authenticated:
  assumes "accessToken (stored w) = Some at" "refreshToken (stored w) = Some rt"
    "at \<noteq> []" "rt \<noteq> []"
  shows "getValidAccessToken tokenReply latency w
     = (if expiresSoon w then refreshAccessToken tokenReply latency w else (Inr at, w))"
  using assms stale_iff_expiresSoon [of w]
  by (simp add: getValidAccessToken_def loadConfig_def falsyString_def Let_def)

lemma playSpotify_requests:
  "requests (snd (playSpotify tokenReply latency putReply w))
     = requests (snd (getValidAccessToken tokenReply latency w))
       @ (case fst (getValidAccessToken tokenReply latency w) of
            Inl e \<Rightarrow> [] | Inr token \<Rightarrow> [PlayerPut Play token])"
  "stored (snd (playSpotify tokenReply latency putReply w))
     = stored (snd (getValidAccessToken tokenReply latency w))"
  by (cases "getValidAccessToken tokenReply latency w"; cases putReply;
      simp add: playSpotify_def Let_def split: sum.splits)+

lemma pauseSpotify_requests:
  "requests (snd (pauseSpotify tokenReply latency putReply w))
     = requests (snd (getValidAccessToken tokenReply latency w))
       @ (case fst (getValidAccessToken tokenReply latency w) of
            Inl e \<Rightarrow> [] | Inr token \<Rightarrow> [PlayerPut Pause token])"
  "stored (snd (pauseSpotify tokenReply latency putReply w))
     = stored (snd (getValidAccessToken tokenReply latency w))"
  by (cases "getValidAccessToken tokenReply latency w"; cases putReply;
      simp add: pauseSpotify_def Let_def split: sum.splits)+

text \<open>
  Claim C9. With an access token and a refresh token in the store: when the stored expiry
  is absent or less than five minutes ahead, \<^verbatim>\<open>getValidAccessToken\<close> sends the refresh
  request first; if the token endpoint answers, the new token and its expiry (the time of
  the answer plus \<^verbatim>\<open>expires_in\<close> seconds) are written to the store, and the PUT of
  \<^verbatim>\<open>playSpotify\<close> or \<^verbatim>\<open>pauseSpotify\<close> follows the refresh and carries the new token;
  if the refresh fails, the error is thrown and no PUT is sent. Otherwise no refresh is
  sent, the PUT carries the stored token and the store is unchanged.
\<close>

theorem token_refresh:
  assumes "accessToken (stored w) = Some at" "refreshToken (stored w) = Some rt"
    "at \<noteq> []" "rt \<noteq> []"
  shows "(expiresSoon w \<longrightarrow>
            getValidAccessToken (Some (tok, ttl)) latency w
              = (Inr tok,
                 w\<lparr>now := now w + latency,
                   requests := requests w @ [TokenRefresh rt],
                   stored := (stored w)\<lparr>accessToken := Some tok,
                       expiresAt := Some (int (now w + latency) + ttl * 1000)\<rparr>\<rparr>) \<and>
            getValidAccessToken None latency w
              = (Inl RequestFailed,
                 w\<lparr>now := now w + latency, requests := requests w @ [TokenRefresh rt]\<rparr>) \<and>
            requests (snd (playSpotify (Some (tok, ttl)) latency putReply w))
              = requests w @ [TokenRefresh rt, PlayerPut Play tok] \<and>
            requests (snd (pauseSpotify (Some (tok, ttl)) latency putReply w))
              = requests w @ [TokenRefresh rt, PlayerPut Pause tok] \<and>
            stored (snd (playSpotify (Some (tok, ttl)) latency putReply w))
              = (stored w)\<lparr>accessToken := Some tok,
                    expiresAt := Some (int (now w + latency) + ttl * 1000)\<rparr> \<and>
            stored (snd (pauseSpotify (Some (tok, ttl)) latency putReply w))
              = (stored w)\<lparr>accessToken := Some tok,
                    expiresAt := Some (int (now w + latency) + ttl * 1000)\<rparr> \<and>
            requests (snd (playSpotify None latency putReply w)) = requests w @ [TokenRefresh rt] \<and>
            requests (snd (pauseSpotify None latency putReply w)) = requests w @ [TokenRefresh rt]) \<and>
         (\<not> expiresSoon w \<longrightarrow>
            getValidAccessToken tokenReply latency w = (Inr at, w) \<and>
            requests (snd (playSpotify tokenReply latency putReply w))
              = requests w @ [PlayerPut Play at] \<and>
            requests (snd (pauseSpotify tokenReply latency putReply w))
              = requests w @ [PlayerPut Pause at] \<and>
            stored (snd (playSpotify tokenReply latency putReply w)) = stored w \<and>
            stored (snd (pauseSpotify tokenReply latency putReply w)) = stored w)"
proof -
  note g = getValidAccessToken_authenticated [OF assms]
  have r1: "refreshAccessToken (Some (tok, ttl)) latency w
      = (Inr tok,
         w\<lparr>now := now w + latency,
           requests := requests w @ [TokenRefresh rt],
           stored := (stored w)\<lparr>accessToken := Some tok,
               expiresAt := Some (int (now w + latency) + ttl * 1000)\<rparr>\<rparr>)"
    using assms
    by (simp add: refreshAccessToken_def loadConfig_def saveConfig_def falsyString_def Let_def)
  have r2: "refreshAccessToken None latency w
      = (Inl RequestFailed,
         w\<lparr>now := now w + latency, requests := requests w @ [TokenRefresh rt]\<rparr>)"
    using assms
    by (simp add: refreshAccessToken_def loadConfig_def falsyString_def Let_def)
  show ?thesis
    by (simp add: g r1 r2 playSpotify_requests pauseSpotify_requests)
qed

text \<open>
  Witness: a token that expires in 299999 ms is refreshed (the answer arrives 150 ms
  later and is valid for 3600 s); the same token an hour before its expiry is used as it
  is.
\<close>

theorem token_refresh_witness:
  "accessToken (stored staleWorld) = Some ''old'' \<and>
   refreshToken (stored staleWorld) = Some ''refresh'' \<and>
   expiresSoon staleWorld \<and>
   requests (snd (playSpotify (Some (''new'', 3600)) 150 PutOk staleWorld))
     = [TokenRefresh ''refresh'', PlayerPut Play ''new''] \<and>
   stored (snd (playSpotify (Some (''new'', 3600)) 150 PutOk staleWorld))
     = \<lparr>accessToken = Some ''new'', refreshToken = Some ''refresh'',
        expiresAt = Some 1003600150\<rparr> \<and>
   requests (snd (pauseSpotify None 150 PutOk staleWorld)) = [TokenRefresh ''refresh''] \<and>
   \<not> expiresSoon freshWorld \<and>
   requests (snd (pauseSpotify (Some (''new'', 3600)) 150 PutOk freshWorld))
     = [PlayerPut Pause ''old''] \<and>
   stored (snd (pauseSpotify (Some (''new'', 3600)) 150 PutOk freshWorld)) = stored freshWorld"
proof -
  have a: "accessToken (stored staleWorld) = Some ''old''"
    "refreshToken (stored staleWorld) = Some ''refresh''"
    "accessToken (stored freshWorld) = Some ''old''"
    "refreshToken (stored freshWorld) = Some ''refresh''"
    "''old'' \<noteq> []" "''refresh'' \<noteq> []"
    by (simp_all add: staleWorld_def freshWorld_def)
  have e: "expiresSoon staleWorld" "\<not> expiresSoon freshWorld"
    by (simp_all add: expiresSoon_def staleWorld_def freshWorld_def)
  have v: "requests staleWorld = []" "requests freshWorld = []" "now staleWorld = 1000000000"
    "stored staleWorld = \<lparr>accessToken = Some ''old'', refreshToken = Some ''refresh'',
        expiresAt = Some 1000299999\<rparr>"
    by (simp_all add: staleWorld_def freshWorld_def)
  from token_refresh [OF a(1,2,5,6), of "''new''" 3600 150 PutOk]
    token_refresh [OF a(3,4,5,6), of _ _ _ _ "Some (''new'', 3600)"] a e v
  show ?thesis by simp
qed

subsection \<open>Claim C2: install, then restore\<close>

lemma map_of_insertProp_other:
  "k' \<noteq> k \<Longrightarrow> map_of (insertProp kvs k v) k' = map_of kvs k'"
  by (induction kvs) auto

lemma map_of_replace_other:
  "k' \<noteq> k \<Longrightarrow> map_of (map (\<lambda>kv. if fst kv = k then (k, v) else kv) kvs) k' = map_of kvs k'"
  by (induction kvs) auto

lemma map_of_setProp_other:
  "k' \<noteq> k \<Longrightarrow> map_of (setProp kvs k v) k' = map_of kvs k'"
  by (simp add: setProp_def map_of_insertProp_other map_of_replace_other)

lemma pushHook_list:
  assumes "isListOrAbsent (map_of hs (js event))"
  shows "\<exists>xs. pushHook event entry (JObj hs) = Inr (JObj (setProp hs (js event) (JArr xs)))"
  using assms
  by (auto simp: pushHook_def isListOrAbsent_def coalesce_def split: option.splits json.splits)

lemma addHooks_wellFormed:
  assumes "wellFormedSettings j"
  shows "\<exists>u. addHooks noPause path pf j = Inr u"
proof -
  from assms obtain kvs where j: "j = JObj kvs"
    by (auto simp: wellFormedSettings_def split: json.splits)
  obtain hs where hs: "coalesce (map_of kvs (js ''hooks'')) (JObj []) = JObj hs"
    and l: "isListOrAbsent (map_of hs (js ''PreToolUse''))" "isListOrAbsent (map_of hs (js ''Stop''))"
      "isListOrAbsent (map_of hs (js ''Notification''))"
    using assms j by (auto simp: wellFormedSettings_def split: json.splits)
  obtain x1 where p1: "pushHook ''PreToolUse'' (hookGroup (spotifyPlayCmd pf path)) (JObj hs)
      = Inr (JObj (setProp hs (js ''PreToolUse'') (JArr x1)))"
    using pushHook_list [OF l(1)] by blast
  let ?h1 = "setProp hs (js ''PreToolUse'') (JArr x1)"
  have "isListOrAbsent (map_of ?h1 (js ''Stop''))" using l(2) by (simp add: map_of_setProp_other)
  then obtain x2 where p2: "pushHook ''Stop'' (hookGroup (spotifyPauseCmd pf path)) (JObj ?h1)
      = Inr (JObj (setProp ?h1 (js ''Stop'') (JArr x2)))"
    using pushHook_list by blast
  let ?h2 = "setProp ?h1 (js ''Stop'') (JArr x2)"
  have "isListOrAbsent (map_of ?h2 (js ''Notification''))"
    using l(3) by (simp add: map_of_setProp_other)
  then obtain x3 where p3:
    "pushHook ''Notification'' (hookGroup (spotifyPauseCmd pf path)) (JObj ?h2)
      = Inr (JObj (setProp ?h2 (js ''Notification'') (JArr x3)))"
    using pushHook_list by blast
  show ?thesis
    by (cases noPause) (simp_all add: j addHooks_def hs p1 p2 p3 thenE_def)
qed

lemma installThenRestore_result:
  "installThenRestore rt noPause path pf file = Inr file' \<Longrightarrow>
   file' = Some (encodeUtf8 rt (stringifyJSON rt (readSettings rt file)))"
  by (auto simp: installThenRestore_def injectHooks_def thenE_def restoreHooks_def
      writeSettings_def Let_def split: option.splits sum.splits)

lemma installThenRestore_returns:
  assumes "parseJSON rt (stringifyJSON rt (readSettings rt file)) = Some u"
    "wellFormedSettings u"
  shows "installThenRestore rt noPause path pf file
     = Inr (Some (encodeUtf8 rt (stringifyJSON rt (readSettings rt file))))"
proof -
  obtain u' where u: "addHooks noPause path pf u = Inr u'"
    using addHooks_wellFormed [OF assms(2)] by blast
  have "injectHooks rt noPause path pf file = Inr (readSettings rt file, writeSettings rt u')"
    using assms(1) u by (simp add: injectHooks_def thenE_def)
  then show ?thesis
    by (simp add: installThenRestore_def thenE_def restoreHooks_def writeSettings_def)
qed

lemma installThenRestore_unchanged:
  assumes "parseJSON rt (decodeUtf8 rt bytes) = Some j" "wellFormedSettings j"
    "stringifyJSON rt j = decodeUtf8 rt bytes" "encodeUtf8 rt (decodeUtf8 rt bytes) = bytes"
  shows "installThenRestore rt noPause path pf (Some bytes) = Inr (Some bytes)"
proof -
  have r: "readSettings rt (Some bytes) = j" using assms(1) by (simp add: readSettings_def)
  have "parseJSON rt (stringifyJSON rt (readSettings rt (Some bytes))) = Some j"
    using assms(1,3) by (simp add: r)
  from installThenRestore_returns [OF this assms(2), of noPause path pf]
  show ?thesis using assms(3,4) by (simp add: r)
qed

lemma wellFormed_empty: "wellFormedSettings (JObj [])"
  by (simp add: wellFormedSettings_def coalesce_def isListOrAbsent_def)

lemma installThenRestore_missing:
  "installThenRestore node noPause path pf None = Inr (Some ''{}'')"
proof -
  have r: "readSettings node None = JObj []" by (simp add: readSettings_def)
  have "parseJSON node (stringifyJSON node (readSettings node None)) = Some (JObj [])"
    by (simp add: r JSON_stringify_empty_object JSON_parse_empty_object)
  from installThenRestore_returns [OF this wellFormed_empty, of noPause path pf]
  show ?thesis by (simp add: r JSON_stringify_empty_object utf8Encode_empty_object)
qed

text \<open>The documents of the examples, read and written by the runtime of Node.js.\<close>

lemma read_compact:
  "JSON_parse (utf8Decode compactSettings) = Some (JObj [(js ''a'', JNum (Num 1))])"
  by code_simp

lemma clone_a1:
  "JSON_parse (JSON_stringify (JObj [(js ''a'', JNum (Num 1))]))
     = Some (JObj [(js ''a'', JNum (Num 1))])"
  by code_simp

lemma write_a1: "utf8Encode (JSON_stringify (JObj [(js ''a'', JNum (Num 1))])) = prettySettings"
  by code_simp

lemma read_pretty:
  "JSON_parse (utf8Decode prettySettings) = Some (JObj [(js ''a'', JNum (Num 1))])"
  "JSON_stringify (JObj [(js ''a'', JNum (Num 1))]) = utf8Decode prettySettings"
  "utf8Encode (utf8Decode prettySettings) = prettySettings"
  by code_simp+

lemma read_latin1:
  "JSON_parse (utf8Decode latin1Settings) = Some (JObj [(js ''a'', JStr [0xFFFD])])"
  by code_simp

lemma clone_latin1:
  "JSON_parse (JSON_stringify (JObj [(js ''a'', JStr [0xFFFD])]))
     = Some (JObj [(js ''a'', JStr [0xFFFD])])"
  by code_simp

lemma write_latin1:
  "utf8Encode (JSON_stringify (JObj [(js ''a'', JStr [0xFFFD])])) = replacedSettings"
  by code_simp

lemma latin1_not_utf8: "utf8Encode (utf8Decode latin1Settings) \<noteq> latin1Settings"
  by code_simp

lemma read_userSettings:
  "JSON_parse (utf8Decode (utf8Encode (JSON_stringify userSettings))) = Some userSettings"
  "JSON_stringify userSettings = utf8Decode (utf8Encode (JSON_stringify userSettings))"
  by code_simp+

lemma wellFormed_examples:
  "wellFormedSettings (JObj [(js ''a'', JNum (Num 1))])"
  "wellFormedSettings (JObj [(js ''a'', JStr [0xFFFD])])"
  "wellFormedSettings userSettings"
  by code_simp+

lemma installThenRestore_compact:
  "installThenRestore node False ''/tmp/tune-in-claude.pid'' Darwin (Some compactSettings)
     = Inr (Some prettySettings)"
proof -
  have r: "readSettings node (Some compactSettings) = JObj [(js ''a'', JNum (Num 1))]"
    by (simp add: readSettings_def read_compact)
  have "parseJSON node (stringifyJSON node (readSettings node (Some compactSettings)))
      = Some (JObj [(js ''a'', JNum (Num 1))])"
    by (simp add: r clone_a1)
  from installThenRestore_returns [OF this wellFormed_examples(1)]
  show ?thesis by (simp add: r write_a1)
qed

lemma installThenRestore_latin1:
  "installThenRestore node False ''/tmp/tune-in-claude.pid'' Darwin (Some latin1Settings)
     = Inr (Some replacedSettings)"
proof -
  have r: "readSettings node (Some latin1Settings) = JObj [(js ''a'', JStr [0xFFFD])]"
    by (simp add: readSettings_def read_latin1)
  have "parseJSON node (stringifyJSON node (readSettings node (Some latin1Settings)))
      = Some (JObj [(js ''a'', JStr [0xFFFD])])"
    by (simp add: r clone_latin1)
  from installThenRestore_returns [OF this wellFormed_examples(2)]
  show ?thesis by (simp add: r write_latin1)
qed

lemma installThenRestore_malformed:
  "installThenRestore node False ''/tmp/tune-in-claude.pid'' Darwin (Some ''{broken'')
     = Inr (Some ''{}'')"
proof -
  have "JSON_parse (utf8Decode ''{broken'') = None"
    by code_simp
  then have "readSettings node (Some ''{broken'') = readSettings node None"
    by (simp add: readSettings_def)
  then have "installThenRestore node False ''/tmp/tune-in-claude.pid'' Darwin (Some ''{broken'')
      = installThenRestore node False ''/tmp/tune-in-claude.pid'' Darwin None"
    by (simp add: installThenRestore_def injectHooks_def)
  then show ?thesis by (simp add: installThenRestore_missing)
qed

text \<open>
  Claim C2, as the code has it. \<^verbatim>\<open>restoreHooks\<close> does not put back the bytes that were
  read: it writes \<^verbatim>\<open>JSON.stringify(snapshot, null, 2)\<close>, and the snapshot is what
  \<^verbatim>\<open>readSettings\<close> made of the file. In every runtime \<open>rt\<close>, for every file (any bytes,
  or missing):

    \<^item> when install returns, install followed by restore leaves the file holding the
      encoded serialisation of the snapshot;
    \<^item> install returns when the deep clone of the snapshot is a well-formed configuration;
    \<^item> the snapshot is the document the file parses to, and \<^verbatim>\<open>{}\<close> when the file is
      missing or does not parse;
    \<^item> so the file ends byte for byte as it started when it parses to a well-formed
      configuration, its text already is the serialisation of that document, and its bytes
      are what the encoder writes for its text (the file is valid UTF-8).

  Under Node.js a missing file ends as a file that holds \<^verbatim>\<open>{}\<close>.
\<close>

theorem install_then_restore:
  "(installThenRestore rt noPause path pf file = Inr file' \<longrightarrow>
      file' = Some (encodeUtf8 rt (stringifyJSON rt (readSettings rt file)))) \<and>
   (parseJSON rt (stringifyJSON rt (readSettings rt file)) = Some u \<and> wellFormedSettings u \<longrightarrow>
      installThenRestore rt noPause path pf file
        = Inr (Some (encodeUtf8 rt (stringifyJSON rt (readSettings rt file))))) \<and>
   readSettings rt None = JObj [] \<and>
   (parseJSON rt (decodeUtf8 rt bytes) = None \<longrightarrow> readSettings rt (Some bytes) = JObj []) \<and>
   (parseJSON rt (decodeUtf8 rt bytes) = Some j \<longrightarrow> readSettings rt (Some bytes) = j) \<and>
   (parseJSON rt (decodeUtf8 rt bytes) = Some j \<and> wellFormedSettings j \<and>
    stringifyJSON rt j = decodeUtf8 rt bytes \<and> encodeUtf8 rt (decodeUtf8 rt bytes) = bytes \<longrightarrow>
      installThenRestore rt noPause path pf (Some bytes) = Inr (Some bytes)) \<and>
   installThenRestore node noPause path pf None = Inr (Some ''{}'')"
proof (intro conjI impI)
  assume "installThenRestore rt noPause path pf file = Inr file'"
  then show "file' = Some (encodeUtf8 rt (stringifyJSON rt (readSettings rt file)))"
    by (rule installThenRestore_result)
next
  assume "parseJSON rt (stringifyJSON rt (readSettings rt file)) = Some u \<and> wellFormedSettings u"
  then show "installThenRestore rt noPause path pf file
      = Inr (Some (encodeUtf8 rt (stringifyJSON rt (readSettings rt file))))"
    using installThenRestore_returns by blast
next
  show "readSettings rt None = JObj []" by (simp add: readSettings_def)
next
  assume "parseJSON rt (decodeUtf8 rt bytes) = None"
  then show "readSettings rt (Some bytes) = JObj []" by (simp add: readSettings_def)
next
  assume "parseJSON rt (decodeUtf8 rt bytes) = Some j"
  then show "readSettings rt (Some bytes) = j" by (simp add: readSettings_def)
next
  assume "parseJSON rt (decodeUtf8 rt bytes) = Some j \<and> wellFormedSettings j \<and>
    stringifyJSON rt j = decodeUtf8 rt bytes \<and> encodeUtf8 rt (decodeUtf8 rt bytes) = bytes"
  then show "installThenRestore rt noPause path pf (Some bytes) = Inr (Some bytes)"
    using installThenRestore_unchanged by blast
next
  show "installThenRestore node noPause path pf None = Inr (Some ''{}'')"
    by (rule installThenRestore_missing)
qed

text \<open>
  Witness, under Node.js: the one-line file \<^verbatim>\<open>{"a":1}\<close> comes back as the
  serialisation of what was read from it; the file that already is that serialisation comes
  back unchanged, and so does a settings file with a hook of the user's own as
  \<^verbatim>\<open>JSON.stringify\<close> writes it.
\<close>

theorem install_then_restore_witness:
  "installThenRestore node False ''/tmp/tune-in-claude.pid'' Darwin (Some compactSettings)
     = Inr (Some prettySettings) \<and>
   readSettings node (Some compactSettings) = JObj [(js ''a'', JNum (Num 1))] \<and>
   Some prettySettings
     = Some (encodeUtf8 node (stringifyJSON node (readSettings node (Some compactSettings)))) \<and>
   readSettings node (Some ''{broken'') = JObj [] \<and>
   wellFormedSettings (JObj [(js ''a'', JNum (Num 1))]) \<and>
   installThenRestore node False ''/tmp/tune-in-claude.pid'' Darwin (Some prettySettings)
     = Inr (Some prettySettings) \<and>
   wellFormedSettings userSettings \<and>
   installThenRestore node False ''/tmp/tune-in-claude.pid'' Darwin
       (Some (utf8Encode (JSON_stringify userSettings)))
     = Inr (Some (utf8Encode (JSON_stringify userSettings)))"
proof -
  have broken: "parseJSON node (decodeUtf8 node ''{broken'') = None"
    unfolding node_fields by code_simp
  note a = install_then_restore [of node False "''/tmp/tune-in-claude.pid''" Darwin
      "Some compactSettings" "Some prettySettings" _ compactSettings
      "JObj [(js ''a'', JNum (Num 1))]"]
  note b = install_then_restore [of node False "''/tmp/tune-in-claude.pid''" Darwin
      "Some compactSettings" "Some prettySettings" _ prettySettings
      "JObj [(js ''a'', JNum (Num 1))]"]
  note c = install_then_restore [of node False "''/tmp/tune-in-claude.pid''" Darwin
      "Some compactSettings" "Some prettySettings" _ "utf8Encode (JSON_stringify userSettings)"
      userSettings]
  note d = install_then_restore [of node False "''/tmp/tune-in-claude.pid''" Darwin
      "Some compactSettings" "Some prettySettings" _ "''{broken''"]
  have w1: "readSettings node (Some compactSettings) = JObj [(js ''a'', JNum (Num 1))]"
    using a read_compact by simp
  have w2: "Some prettySettings
      = Some (encodeUtf8 node (stringifyJSON node (readSettings node (Some compactSettings))))"
    using a installThenRestore_compact by simp
  have w3: "readSettings node (Some ''{broken'') = JObj []"
    using d broken by blast
  have w4: "installThenRestore node False ''/tmp/tune-in-claude.pid'' Darwin (Some prettySettings)
      = Inr (Some prettySettings)"
    using b read_pretty wellFormed_examples(1) by simp
  have w5: "installThenRestore node False ''/tmp/tune-in-claude.pid'' Darwin
        (Some (utf8Encode (JSON_stringify userSettings)))
      = Inr (Some (utf8Encode (JSON_stringify userSettings)))"
    using c read_userSettings wellFormed_examples(3) by simp
  from w1 w2 w3 w4 w5 installThenRestore_compact wellFormed_examples(1,3)
  show ?thesis by simp
qed

text \<open>
  The claim as stated fails, under Node.js, on a well-formed configuration that is not in
  the format of \<^verbatim>\<open>JSON.stringify(obj, null, 2)\<close>: the one-line file
  \<^verbatim>\<open>{"a":1}\<close> comes back on three lines. It fails on the empty starting configuration:
  no file before, a file holding \<^verbatim>\<open>{}\<close> after. And it fails on a file in that format
  that is not UTF-8: the Latin-1 byte \<open>0xE9\<close> comes back as the three bytes of U+FFFD.
\<close>

theorem install_then_restore_counterexample:
  "readSettings node (Some compactSettings) = JObj [(js ''a'', JNum (Num 1))] \<and>
   wellFormedSettings (JObj [(js ''a'', JNum (Num 1))]) \<and>
   installThenRestore node False ''/tmp/tune-in-claude.pid'' Darwin (Some compactSettings)
     = Inr (Some prettySettings) \<and>
   prettySettings \<noteq> compactSettings \<and>
   installThenRestore node False ''/tmp/tune-in-claude.pid'' Darwin None = Inr (Some ''{}'') \<and>
   Some ''{}'' \<noteq> (None :: string option) \<and>
   readSettings node (Some latin1Settings) = JObj [(js ''a'', JStr [0xFFFD])] \<and>
   wellFormedSettings (JObj [(js ''a'', JStr [0xFFFD])]) \<and>
   installThenRestore node False ''/tmp/tune-in-claude.pid'' Darwin (Some latin1Settings)
     = Inr (Some replacedSettings) \<and>
   replacedSettings \<noteq> latin1Settings"
proof -
  have r1: "readSettings node (Some compactSettings) = JObj [(js ''a'', JNum (Num 1))]"
    by (simp add: readSettings_def read_compact)
  have r2: "readSettings node (Some latin1Settings) = JObj [(js ''a'', JStr [0xFFFD])]"
    by (simp add: readSettings_def read_latin1)
  have n1: "prettySettings \<noteq> compactSettings"
    by (simp add: prettySettings_def compactSettings_def)
  have n2: "replacedSettings \<noteq> latin1Settings"
    by (simp add: replacedSettings_def latin1Settings_def)
  from r1 r2 n1 n2 wellFormed_examples(1,2) installThenRestore_compact
    installThenRestore_missing [of False "''/tmp/tune-in-claude.pid''" Darwin]
    installThenRestore_latin1
  show ?thesis by simp
qed

end
